theory Spec2Isabelle
  imports Main "HOL-Library.Word"
begin

unbundle bit_operations_syntax

section \<open>EPOCH: data model\<close>

text \<open>
  A shallow embedding of the Go package \<^verbatim>\<open>epoch\<close> (\<^verbatim>\<open>epoch.go\<close> and the RPC
  structures of the handler file).

  Conventions.
  \<^item> Go's \<^verbatim>\<open>int\<close> is modelled as \<open>int\<close>: the package only compares such values and
    adds counts bounded by the batch size, so no result depends on the width.
    \<^verbatim>\<open>uint64\<close> is \<open>64 word\<close>, a byte is \<open>8 word\<close>, a Go string is a \<open>string\<close>.
  \<^item> A function that mutates the package-level variable \<^verbatim>\<open>epoch\<close> takes the engine
    state and returns the new one next to its Go results.
  \<^item> \<^verbatim>\<open>error\<close> values are the constructors of \<open>error\<close>, one per
    \<^verbatim>\<open>fmt.Errorf\<close> site; a nil error is \<open>None\<close>.
  \<^item> A Go function either returns, panics, or (on a channel or a wait group) blocks:
    \<open>'a run\<close>.
  \<^item> Functions of other packages (the hash, the difficulty comparator, the address
    check, \<^verbatim>\<open>runtime.NumCPU\<close>, ...) are fields of the record \<open>ext\<close>, a parameter of
    every definition that calls one. What the clock, the random source and the
    network deliver is a parameter of the step that reads it.
  \<^item> Goroutines interleave: the functions that launch them are transition systems
    whose steps are the atomic actions of the source (a channel operation, a read or
    a write of a shared variable, a section under a lock).
  \<^item> \<^verbatim>\<open>EPOCH_Result.HashPerSec\<close> is a \<^verbatim>\<open>float64\<close> computed from the clock; it is
    left out of the model. So are \<^verbatim>\<open>JobIsReady\<close>, \<^verbatim>\<open>GetPort\<close>, \<^verbatim>\<open>HashesToString\<close>
    and the table of RPC handlers, which change no state.
\<close>

type_synonym byte = "8 word"

datatype 'a run = Blocked | Panics | Returns 'a

fun bind_run :: "'a run \<Rightarrow> ('a \<Rightarrow> 'b run) \<Rightarrow> 'b run" where
  "bind_run Blocked f = Blocked"
| "bind_run Panics f = Panics"
| "bind_run (Returns x) f = f x"

datatype hex_error = InvalidByteError char | ErrLength

datatype error =
    ErrNotActive                          \<comment> \<open>"epoch is not active"\<close>
  | ErrHashesExceed int int               \<comment> \<open>"hashes exceeds maxHashes %d/%d"\<close>
  | ErrSubmissionExceeds int int          \<comment> \<open>"requested submission exceeds maxHashes %d/%d"\<close>
  | ErrCannotExceed int                   \<comment> \<open>"cannot exceed %d hashes"\<close>
  | ErrInvalidPort                        \<comment> \<open>"invalid EPOCH port"\<close>
  | ErrInvalidAddress                     \<comment> \<open>the error of globals.ParseValidateAddress\<close>
  | ErrAlreadyRunning                     \<comment> \<open>"already running"\<close>
  | ErrCouldNotGetHost                    \<comment> \<open>"could not get host: %s"\<close>
  | ErrCouldNotSetAddress                 \<comment> \<open>"could not set address: %s"\<close>
  | ErrAddressNotValid string             \<comment> \<open>"address %q is not valid: %s"\<close>
  | ErrDial                               \<comment> \<open>the error of DialContext\<close>
  | ErrSessionTimeout                     \<comment> \<open>"could not get EPOCH session after %s"\<close>
  | ErrDecode nat "hex_error option"      \<comment> \<open>"block hashing could not be decoded successfully ..."\<close>
  | ErrUnknownVersion byte                \<comment> \<open>"unknown version, please check for updates %v"\<close>
  | ErrConnectionClosed                   \<comment> \<open>"connection is closed"\<close>
  | ErrWrite                              \<comment> \<open>the error of WriteJSON\<close>

text \<open>
  \<^verbatim>\<open>rpc.GetBlockTemplate_Result\<close> is declared in the DERO library; its fields are
  those of the job template shown in the README. The package reads \<open>JobID\<close>,
  \<open>Blockhashing_blob\<close>, \<open>Difficulty\<close>, \<open>Height\<close> and \<open>LastError\<close>.
\<close>

record GetBlockTemplate_Result =
  JobID :: string
  Blockhashing_blob :: string
  Difficulty :: string
  Difficultyuint64 :: "64 word"
  Height :: "64 word"
  Prev_Hash :: string
  EpochMilli :: "64 word"
  Blocks :: "64 word"
  MiniBlocks :: "64 word"
  Rejected :: "64 word"
  LastError :: string
  Status :: string

definition zero_job :: GetBlockTemplate_Result where
  "zero_job = \<lparr>JobID = [], Blockhashing_blob = [], Difficulty = [], Difficultyuint64 = 0,
     Height = 0, Prev_Hash = [], EpochMilli = 0, Blocks = 0, MiniBlocks = 0, Rejected = 0,
     LastError = [], Status = []\<rparr>"

text \<open>\<^verbatim>\<open>rpc.SubmitBlock_Params\<close>, as \<^verbatim>\<open>submitBlock\<close> fills it.\<close>

record SubmitBlock_Params =
  sb_JobID :: string
  MiniBlockhashing_blob :: string

text \<open>
  \<^verbatim>\<open>GetSessionEPOCH_Result\<close>. Its Go fields \<^verbatim>\<open>Hashes\<close>, \<^verbatim>\<open>MiniBlocks\<close> and
  \<^verbatim>\<open>Version\<close> carry the names of their JSON tags here, since \<^verbatim>\<open>EPOCH_Result\<close> and the job
  template have fields of the same Go names.
\<close>

record GetSessionEPOCH_Result =
  sessionHashes :: "64 word"
  sessionMinis :: int
  sessionVersion :: string

definition zero_session :: GetSessionEPOCH_Result where
  "zero_session = \<lparr>sessionHashes = 0, sessionMinis = 0, sessionVersion = []\<rparr>"

record EPOCH_Result =
  Hashes :: "64 word"
  Submitted :: int
  Duration :: int
  Error :: "error option"

definition zero_result :: EPOCH_Result where
  "zero_result = \<lparr>Hashes = 0, Submitted = 0, Duration = 0, Error = None\<rparr>"

record Submit_Params =
  Job :: GetBlockTemplate_Result
  PowHash :: "byte list"
  EpochWork :: "byte list"
  sp_Difficulty :: int

text \<open>
  The web socket handle: of the connection the model keeps the records written to it
  with \<^verbatim>\<open>WriteJSON\<close>, and whether a write has failed (the library keeps the error of a
  failed write, and every later write on the connection returns it). A nil handle is
  \<open>None\<close>.
\<close>

record websocket =
  written :: "SubmitBlock_Params list"
  writeErr :: bool

text \<open>
  A buffered \<^verbatim>\<open>chan struct{}\<close>: its elements carry no data, so the channel is its
  capacity and the number of elements queued. A nil channel is \<open>None\<close>.
\<close>

record chan =
  cap :: nat
  len :: nat

record EPOCH =
  conn_ws :: "websocket option"
  jobs_job :: GetBlockTemplate_Result
  port :: string
  address :: string
  processing :: bool
  maxHashes :: int
  maxThreads :: int
  semaphore :: "chan option"
  session :: GetSessionEPOCH_Result

text \<open>Functions of other packages that the engine calls.\<close>

record ext =
  NumCPU :: int                                       \<comment> \<open>runtime.NumCPU()\<close>
  ParseValidateAddress :: "string \<Rightarrow> bool"            \<comment> \<open>globals.ParseValidateAddress: no error\<close>
  SplitHostPort :: "string \<Rightarrow> string option"          \<comment> \<open>net.SplitHostPort: the host\<close>
  SetString :: "string \<Rightarrow> int"                        \<comment> \<open>big.Int.SetString(s, 10)\<close>
  AstroBWTv3 :: "byte list \<Rightarrow> byte list"              \<comment> \<open>astrobwtv3.AstroBWTv3\<close>
  CheckPowHashBig :: "byte list \<Rightarrow> int \<Rightarrow> bool option"
    \<comment> \<open>blockchain.CheckPowHashBig; \<open>None\<close> where the call panics (the library does on a
        difficulty of zero)\<close>

definition DEFAULT_MAX_THREADS :: int where "DEFAULT_MAX_THREADS = 2"
definition DEFAULT_WORK_PORT :: int where "DEFAULT_WORK_PORT = 10100"
definition LIMIT_MAX_HASHES :: int where "LIMIT_MAX_HASHES = 10000"

section \<open>Configuration and the job store\<close>

definition IsActive :: "EPOCH \<Rightarrow> bool" where
  "IsActive e = (conn_ws e \<noteq> None)"

definition setProcessing :: "bool \<Rightarrow> EPOCH \<Rightarrow> EPOCH" where
  "setProcessing b e = e\<lparr>processing := b\<rparr>"

definition IsProcessing :: "EPOCH \<Rightarrow> bool" where
  "IsProcessing e = processing e"

definition newJob :: "GetBlockTemplate_Result \<Rightarrow> EPOCH \<Rightarrow> string \<times> EPOCH" where
  "newJob job e = (LastError job, e\<lparr>jobs_job := job\<rparr>)"

definition getJob :: "EPOCH \<Rightarrow> GetBlockTemplate_Result" where
  "getJob e = jobs_job e"

definition SetAddress :: "ext \<Rightarrow> string \<Rightarrow> EPOCH \<Rightarrow> error option \<times> EPOCH" where
  "SetAddress x a e =
     (if \<not> ParseValidateAddress x a then (Some ErrInvalidAddress, e)
      else (None, e\<lparr>address := a\<rparr>))"

definition GetAddress :: "EPOCH \<Rightarrow> string" where
  "GetAddress e = address e"

text \<open>\<^verbatim>\<open>fmt.Sprintf("%d", n)\<close> for a number that is not negative.\<close>

function decimal :: "nat \<Rightarrow> string" where
  "decimal n =
     (if n < 10 then [''0123456789'' ! n] else decimal (n div 10) @ [''0123456789'' ! (n mod 10)])"
  by pat_completeness auto
termination
  by (relation "measure id") auto

definition SetPort :: "int \<Rightarrow> EPOCH \<Rightarrow> error option \<times> EPOCH" where
  "SetPort p e =
     (if p < 1 \<or> p > 65535 then (Some ErrInvalidPort, e)
      else (None, e\<lparr>port := CHR '':'' # decimal (nat p)\<rparr>))"

definition SetMaxHashes :: "int \<Rightarrow> EPOCH \<Rightarrow> error option \<times> EPOCH" where
  "SetMaxHashes i e =
     (if i > LIMIT_MAX_HASHES then (Some (ErrCannotExceed LIMIT_MAX_HASHES), e)
      else (None, e\<lparr>maxHashes := i\<rparr>))"

definition GetMaxHashes :: "EPOCH \<Rightarrow> int" where
  "GetMaxHashes e = maxHashes e"

definition SetMaxThreads :: "ext \<Rightarrow> int \<Rightarrow> EPOCH \<Rightarrow> EPOCH" where
  "SetMaxThreads x i e =
     (let max = NumCPU x;
          i' = (if i > max then max else if i < 1 then 1 else i)
      in e\<lparr>maxThreads := i'\<rparr>)"

definition GetMaxThreads :: "EPOCH \<Rightarrow> int" where
  "GetMaxThreads e = maxThreads e"

text \<open>The package variable before \<^verbatim>\<open>init\<close>: every field has its zero value.\<close>

definition zero_EPOCH :: EPOCH where
  "zero_EPOCH = \<lparr>conn_ws = None, jobs_job = zero_job, port = [], address = [],
     processing = False, maxHashes = 0, maxThreads = 0, semaphore = None,
     session = zero_session\<rparr>"

definition init :: "ext \<Rightarrow> EPOCH" where
  "init x =
     (let e1 = zero_EPOCH\<lparr>port := CHR '':'' # decimal (nat DEFAULT_WORK_PORT)\<rparr>;
          e2 = SetMaxThreads x DEFAULT_MAX_THREADS e1
      in e2\<lparr>maxHashes := 1000\<rparr>)"

section \<open>The hash attempt: \<^verbatim>\<open>powHash\<close> and \<^verbatim>\<open>submitBlock\<close>\<close>

text \<open>
  \<^verbatim>\<open>block.MINIBLOCK_SIZE\<close> is a constant of the DERO library: 48, the length of
  \<^verbatim>\<open>epochWork\<close> in the README's request (its hashing blob has 96 hexadecimal digits).
\<close>

definition MINIBLOCK_SIZE :: nat where "MINIBLOCK_SIZE = 48"

text \<open>
  \<^verbatim>\<open>hex.Decode(dst, src)\<close> of Go's \<^verbatim>\<open>encoding/hex\<close>. It walks \<^verbatim>\<open>src\<close> two characters at
  a time, looks both up in \<^verbatim>\<open>reverseHexTable\<close> (\<open>fromHexChar\<close>: \<open>None\<close> where the table
  holds \<^verbatim>\<open>0xff\<close>), returns the count so far with an \<^verbatim>\<open>InvalidByteError\<close> at the first
  character that is no digit, and otherwise stores \<^verbatim>\<open>dst[i] = (a << 4) | b\<close>. The store is
  an ordinary slice write: it panics when \<^verbatim>\<open>i\<close> is not below \<^verbatim>\<open>len(dst)\<close>. A last odd
  character gives \<^verbatim>\<open>ErrLength\<close> (or \<^verbatim>\<open>InvalidByteError\<close> when it is no digit).
\<close>

definition fromHexChar :: "char \<Rightarrow> byte option" where
  "fromHexChar c =
     (let n = (of_char c :: nat) in
      if 48 \<le> n \<and> n \<le> 57 then Some (of_nat (n - 48))
      else if 97 \<le> n \<and> n \<le> 102 then Some (of_nat (n - 87))
      else if 65 \<le> n \<and> n \<le> 70 then Some (of_nat (n - 55))
      else None)"

fun hex_Decode_from :: "nat \<Rightarrow> byte list \<Rightarrow> string \<Rightarrow> (byte list \<times> nat \<times> hex_error option) run" where
  "hex_Decode_from i dst (p # q # src) =
     (case fromHexChar p of
        None \<Rightarrow> Returns (dst, i, Some (InvalidByteError p))
      | Some a \<Rightarrow>
          (case fromHexChar q of
             None \<Rightarrow> Returns (dst, i, Some (InvalidByteError q))
           | Some b \<Rightarrow>
               if i < length dst then hex_Decode_from (Suc i) (dst[i := push_bit 4 a OR b]) src
               else Panics))"
| "hex_Decode_from i dst [p] =
     (case fromHexChar p of
        None \<Rightarrow> Returns (dst, i, Some (InvalidByteError p))
      | Some a \<Rightarrow> Returns (dst, i, Some ErrLength))"
| "hex_Decode_from i dst [] = Returns (dst, i, None)"

definition hex_Decode :: "byte list \<Rightarrow> string \<Rightarrow> (byte list \<times> nat \<times> hex_error option) run" where
  "hex_Decode dst src = hex_Decode_from 0 dst src"

text \<open>\<^verbatim>\<open>fmt.Sprintf("%x", work[:])\<close>: two lower-case hexadecimal digits per byte.\<close>

definition hexdigit :: "nat \<Rightarrow> char" where
  "hexdigit n = ''0123456789abcdef'' ! n"

definition hex_encode :: "byte list \<Rightarrow> string" where
  "hex_encode bs = concat (map (\<lambda>b. [hexdigit (unat b div 16), hexdigit (unat b mod 16)]) bs)"

text \<open>\<^verbatim>\<open>copy(dst[off:], src)\<close>: as many bytes as both slices hold.\<close>

definition copy_at :: "byte list \<Rightarrow> nat \<Rightarrow> byte list \<Rightarrow> byte list" where
  "copy_at dst off src =
     (let n = min (length dst - off) (length src)
      in take off dst @ take n src @ drop (off + n) dst)"

text \<open>
  \<^verbatim>\<open>powHash\<close> returns \<^verbatim>\<open>(job, powhash, work, diff, err)\<close>. \<open>random\<close> is what
  \<^verbatim>\<open>rand.Read\<close> delivers into the 12 bytes of \<^verbatim>\<open>random_buf\<close>. \<^verbatim>\<open>powhash\<close> and \<^verbatim>\<open>diff\<close>
  keep their zero values on the paths that return before they are assigned.
\<close>

type_synonym pow = "GetBlockTemplate_Result \<times> byte list \<times> byte list \<times> int \<times> error option"

definition powHash :: "ext \<Rightarrow> byte list \<Rightarrow> EPOCH \<Rightarrow> pow run" where
  "powHash x random e =
     (let random_buf = take 12 (random @ replicate 12 0);
          job = getJob e
      in bind_run (hex_Decode (replicate MINIBLOCK_SIZE 0) (Blockhashing_blob job))
           (\<lambda>(work, n, herr).
              if herr \<noteq> None \<or> n \<noteq> MINIBLOCK_SIZE
              then Returns (job, replicate 32 0, work, 0, Some (ErrDecode n herr))
              else
                (let work1 = copy_at work (MINIBLOCK_SIZE - 12) random_buf;
                     work2 = work1[MINIBLOCK_SIZE - 1 := 1];
                     diff = SetString x (Difficulty job)
                 in if (work2 ! 0) AND 0xf \<noteq> 1
                    then Returns (job, replicate 32 0, work2, diff,
                           Some (ErrUnknownVersion ((work2 ! 0) AND 0x1f)))
                    else Returns (job, AstroBWTv3 x work2, work2, diff, None))))"

text \<open>
  \<^verbatim>\<open>submitBlock\<close> returns \<^verbatim>\<open>(valid, err)\<close>. Its first statement is the test
  \<^verbatim>\<open>!IsActive()\<close>; the rest is \<open>submitBlock_send\<close>: \<^verbatim>\<open>CheckPowHashBig\<close>, and under the
  lock of the connection \<^verbatim>\<open>epoch.conn.ws.WriteJSON(...)\<close>, which panics on a nil handle.
  \<open>write_ok\<close> says whether the network takes the write. The record reaches the
  connection only when the write succeeds. A goroutine takes the test and the rest as
  two steps (below), since \<^verbatim>\<open>StopGetWork\<close> can clear the handle in between.
\<close>

definition submitBlock_send ::
  "ext \<Rightarrow> bool \<Rightarrow> GetBlockTemplate_Result \<Rightarrow> byte list \<Rightarrow> byte list \<Rightarrow> int \<Rightarrow> EPOCH \<Rightarrow>
     ((bool \<times> error option) \<times> EPOCH) run" where
  "submitBlock_send x write_ok job powhash work diff e =
     (case CheckPowHashBig x powhash diff of
        None \<Rightarrow> Panics
      | Some False \<Rightarrow> Returns ((False, None), e)
      | Some True \<Rightarrow>
          (case conn_ws e of
             None \<Rightarrow> Panics
           | Some ws \<Rightarrow>
               if write_ok \<and> \<not> writeErr ws
               then Returns ((True, None),
                      e\<lparr>conn_ws := Some (ws\<lparr>written := written ws @
                          [\<lparr>sb_JobID = JobID job, MiniBlockhashing_blob = hex_encode work\<rparr>]\<rparr>)\<rparr>)
               else Returns ((False, Some ErrWrite), e\<lparr>conn_ws := Some (ws\<lparr>writeErr := True\<rparr>)\<rparr>)))"

definition submitBlock ::
  "ext \<Rightarrow> bool \<Rightarrow> GetBlockTemplate_Result \<Rightarrow> byte list \<Rightarrow> byte list \<Rightarrow> int \<Rightarrow> EPOCH \<Rightarrow>
     ((bool \<times> error option) \<times> EPOCH) run" where
  "submitBlock x write_ok job powhash work diff e =
     (if \<not> IsActive e then Returns ((False, Some ErrConnectionClosed), e)
      else submitBlock_send x write_ok job powhash work diff e)"

section \<open>The dispatcher: \<^verbatim>\<open>AttemptHashes\<close> and \<^verbatim>\<open>SubmitHashes\<close>\<close>

text \<open>
  Both functions run a loop that launches goroutines and then wait for them. The model
  is an interleaving of atomic steps of one call, the frame \<open>call\<close> holding the call's
  local variables and its goroutines:
  \<^item> \<open>LoopHead\<close>: the loop condition and the test \<^verbatim>\<open>result.Error != nil\<close>
    (\<open>AtLoopHead\<close> to \<open>Acquiring\<close>, or to \<open>Waiting\<close> when the loop ends or breaks);
  \<^item> \<open>Launch\<close>: \<^verbatim>\<open>epoch.semaphore <- struct{}{}\<close>, \<^verbatim>\<open>wg.Add(1)\<close> and the \<^verbatim>\<open>go\<close>
    statement (\<open>Acquiring\<close> to \<open>AtLoopHead\<close>); it blocks while the channel is full;
  \<^item> \<open>TaskStep k t\<close>: the \<open>k\<close>-th running goroutine takes its next step; \<open>t\<close> is what
    the random source and the network give it.
  \<^verbatim>\<open>wg.Wait()\<close> returns when no goroutine of the call is running.

  A goroutine is at one of these places (\<open>task\<close>):
  \<^item> \<open>Start\<close>: before \<^verbatim>\<open>powHash()\<close> (the goroutine of \<^verbatim>\<open>AttemptHashes\<close> starts here);
  \<^item> \<open>Submit job powhash work diff\<close>: before \<^verbatim>\<open>submitBlock\<close> with these arguments (the
    goroutine of \<^verbatim>\<open>SubmitHashes\<close> starts here, with the fields of its \<^verbatim>\<open>p\<close>);
  \<^item> \<open>Checked job powhash work diff\<close>: in \<^verbatim>\<open>submitBlock\<close>, past the test \<^verbatim>\<open>!IsActive()\<close>;
  \<^item> \<open>LoadI valid\<close> and \<open>StoreI v valid\<close>: before the read and before the write of
    \<^verbatim>\<open>i++\<close> (\<^verbatim>\<open>SubmitHashes\<close> only), \<open>v\<close> being the value read;
  \<^item> \<open>LoadS\<close> and \<open>StoreS v\<close>: before the read and before the write of
    \<^verbatim>\<open>result.Submitted++\<close>;
  \<^item> \<open>Release\<close>: before the deferred function (\<^verbatim>\<open><-epoch.semaphore\<close>, \<^verbatim>\<open>wg.Done()\<close>).
  The increments are not synchronised in the source, so each is a read and a later
  write, and the writes of two goroutines can overwrite each other. An assignment of
  \<^verbatim>\<open>result.Error\<close> is one write.

  \<open>launched\<close> and \<open>failed\<close> are not variables of the source: they count the \<^verbatim>\<open>go\<close>
  statements executed and the goroutines that assigned \<^verbatim>\<open>result.Error\<close>.
\<close>

datatype pc = AtLoopHead | Acquiring | Waiting

datatype call_kind = AttemptCall | SubmitCall

datatype task =
    Start
  | Submit GetBlockTemplate_Result "byte list" "byte list" int
  | Checked GetBlockTemplate_Result "byte list" "byte list" int
  | LoadI bool
  | StoreI int bool
  | LoadS
  | StoreS int
  | Release

record task_env =
  random :: "byte list"
  write_ok :: bool

record call =
  kind :: call_kind
  hashes :: int                              \<comment> \<open>AttemptHashes: the argument\<close>
  rest :: "Submit_Params list"               \<comment> \<open>SubmitHashes: the params the range has not reached\<close>
  loop_i :: int                              \<comment> \<open>the variable \<^verbatim>\<open>i\<close>\<close>
  result :: EPOCH_Result
  running :: "task list"                     \<comment> \<open>the goroutines launched and not finished\<close>
  pc :: pc
  launched :: nat
  failed :: nat

datatype step = LoopHead | Launch | TaskStep nat task_env

definition new_call :: "call_kind \<Rightarrow> int \<Rightarrow> Submit_Params list \<Rightarrow> call" where
  "new_call k n ps = \<lparr>kind = k, hashes = n, rest = ps, loop_i = 0, result = zero_result,
     running = [], pc = AtLoopHead, launched = 0, failed = 0\<rparr>"

definition sem_send :: "EPOCH \<Rightarrow> EPOCH run" where
  "sem_send e =
     (case semaphore e of
        None \<Rightarrow> Blocked
      | Some ch \<Rightarrow> if len ch < cap ch then Returns (e\<lparr>semaphore := Some (ch\<lparr>len := len ch + 1\<rparr>)\<rparr>)
                   else Blocked)"

definition sem_recv :: "EPOCH \<Rightarrow> EPOCH run" where
  "sem_recv e =
     (case semaphore e of
        None \<Rightarrow> Blocked
      | Some ch \<Rightarrow> if 0 < len ch then Returns (e\<lparr>semaphore := Some (ch\<lparr>len := len ch - 1\<rparr>)\<rparr>)
                   else Blocked)"

definition set_Error :: "error \<Rightarrow> call \<Rightarrow> call" where
  "set_Error er c = c\<lparr>result := (result c)\<lparr>Error := Some er\<rparr>, failed := failed c + 1\<rparr>"

text \<open>
  One step of a goroutine of the frame: the engine, the frame, and the goroutine's
  next place, \<open>None\<close> when it has ended. After \<^verbatim>\<open>submitBlock\<close> the goroutine of
  \<^verbatim>\<open>AttemptHashes\<close> goes on to \<^verbatim>\<open>result.Submitted++\<close> when \<^verbatim>\<open>valid\<close>, that of
  \<^verbatim>\<open>SubmitHashes\<close> to \<^verbatim>\<open>i++\<close>; an error is assigned to \<^verbatim>\<open>result.Error\<close> and the
  goroutine returns, that is, runs its deferred function.
\<close>

fun task_step :: "ext \<Rightarrow> task_env \<Rightarrow> task \<Rightarrow> EPOCH \<times> call \<Rightarrow> (EPOCH \<times> call \<times> task option) run" where
  "task_step x t Start (e, c) =
     bind_run (powHash x (random t) e)
       (\<lambda>(job, powhash, work, diff, err).
          case err of
            Some er \<Rightarrow> Returns (e, set_Error er c, Some Release)
          | None \<Rightarrow> Returns (e, c, Some (Submit job powhash work diff)))"
| "task_step x t (Submit job powhash work diff) (e, c) =
     (if \<not> IsActive e then Returns (e, set_Error ErrConnectionClosed c, Some Release)
      else Returns (e, c, Some (Checked job powhash work diff)))"
| "task_step x t (Checked job powhash work diff) (e, c) =
     bind_run (submitBlock_send x (write_ok t) job powhash work diff e)
       (\<lambda>((valid, err), e').
          case err of
            Some er \<Rightarrow> Returns (e', set_Error er c, Some Release)
          | None \<Rightarrow>
              Returns (e', c,
                Some (case kind c of
                        AttemptCall \<Rightarrow> if valid then LoadS else Release
                      | SubmitCall \<Rightarrow> LoadI valid)))"
| "task_step x t (LoadI valid) (e, c) = Returns (e, c, Some (StoreI (loop_i c) valid))"
| "task_step x t (StoreI v valid) (e, c) =
     Returns (e, c\<lparr>loop_i := v + 1\<rparr>, Some (if valid then LoadS else Release))"
| "task_step x t LoadS (e, c) = Returns (e, c, Some (StoreS (Submitted (result c))))"
| "task_step x t (StoreS v) (e, c) =
     Returns (e, c\<lparr>result := (result c)\<lparr>Submitted := v + 1\<rparr>\<rparr>, Some Release)"
| "task_step x t Release (e, c) = bind_run (sem_recv e) (\<lambda>e'. Returns (e', c, None))"

definition remove_nth :: "nat \<Rightarrow> 'a list \<Rightarrow> 'a list" where
  "remove_nth k xs = take k xs @ drop (Suc k) xs"

fun call_step :: "ext \<Rightarrow> step \<Rightarrow> EPOCH \<times> call \<Rightarrow> (EPOCH \<times> call) run" where
  "call_step x LoopHead (e, c) =
     (if pc c \<noteq> AtLoopHead then Blocked
      else if (case kind c of AttemptCall \<Rightarrow> \<not> loop_i c < hashes c | SubmitCall \<Rightarrow> rest c = [])
      then Returns (e, c\<lparr>pc := Waiting\<rparr>)
      else if Error (result c) \<noteq> None then Returns (e, c\<lparr>pc := Waiting\<rparr>)
      else Returns (e, c\<lparr>pc := Acquiring\<rparr>))"
| "call_step x Launch (e, c) =
     (if pc c \<noteq> Acquiring then Blocked
      else bind_run (sem_send e)
        (\<lambda>e'. case kind c of
             AttemptCall \<Rightarrow>
               Returns (e', c\<lparr>running := running c @ [Start], loop_i := loop_i c + 1,
                              launched := launched c + 1, pc := AtLoopHead\<rparr>)
           | SubmitCall \<Rightarrow>
               (case rest c of
                  [] \<Rightarrow> Blocked
                | p # ps \<Rightarrow>
                    Returns (e', c\<lparr>running := running c @
                                     [Submit (Job p) (PowHash p) (EpochWork p) (sp_Difficulty p)],
                                   rest := ps, launched := launched c + 1, pc := AtLoopHead\<rparr>))))"
| "call_step x (TaskStep k t) (e, c) =
     (if \<not> k < length (running c) then Blocked
      else bind_run (task_step x t (running c ! k) (e, c))
        (\<lambda>(e', c', next).
           Returns (e', c'\<lparr>running := (case next of
                                         Some t' \<Rightarrow> (running c')[k := t']
                                       | None \<Rightarrow> remove_nth k (running c'))\<rparr>)))"

definition AttemptHashes_begin :: "int \<Rightarrow> EPOCH \<Rightarrow> error + EPOCH \<times> call" where
  "AttemptHashes_begin n e =
     (if \<not> IsActive e then Inl ErrNotActive
      else if n > GetMaxHashes e then Inl (ErrHashesExceed n (maxHashes e))
      else Inr (setProcessing True e, new_call AttemptCall n []))"

definition SubmitHashes_begin :: "Submit_Params list \<Rightarrow> EPOCH \<Rightarrow> error + EPOCH \<times> call" where
  "SubmitHashes_begin params e =
     (if \<not> IsActive e then Inl ErrNotActive
      else
        (let l = int (length params)
         in if l > GetMaxHashes e then Inl (ErrSubmissionExceeds (maxHashes e) l)
            else Inr (setProcessing True e, new_call SubmitCall 0 params)))"

text \<open>
  From \<^verbatim>\<open>wg.Wait()\<close> to the return, the deferred \<^verbatim>\<open>setProcessing(false)\<close> included;
  \<open>elapsed\<close> is \<^verbatim>\<open>time.Since(now).Milliseconds()\<close>. The updates of the session are
  taken as one step: no other call is between their reads and writes.
\<close>

definition AttemptHashes_end :: "int \<Rightarrow> EPOCH \<times> call \<Rightarrow> ((EPOCH_Result \<times> error option) \<times> EPOCH) run" where
  "AttemptHashes_end elapsed s =
     (case s of (e, c) \<Rightarrow>
        if pc c = Waiting \<and> running c = [] then
          (let r1 = (result c)\<lparr>Duration := elapsed\<rparr>;
               h = (word_of_int (loop_i c) :: 64 word);
               r2 = r1\<lparr>Hashes := h\<rparr>;
               e1 = e\<lparr>session := (session e)\<lparr>sessionHashes := sessionHashes (session e) + h\<rparr>\<rparr>;
               e2 = e1\<lparr>session := (session e1)\<lparr>sessionMinis := sessionMinis (session e1) + Submitted r2\<rparr>\<rparr>
           in Returns ((r2, None), setProcessing False e2))
        else Blocked)"

definition SubmitHashes_end :: "int \<Rightarrow> EPOCH \<times> call \<Rightarrow> ((EPOCH_Result \<times> error option) \<times> EPOCH) run" where
  "SubmitHashes_end elapsed s =
     (case s of (e, c) \<Rightarrow>
        if pc c = Waiting \<and> running c = [] then
          (let r1 = (result c)\<lparr>Duration := elapsed\<rparr>;
               r2 = r1\<lparr>Hashes := word_of_int (loop_i c)\<rparr>;
               e1 = e\<lparr>session := (session e)\<lparr>sessionMinis := sessionMinis (session e) + Submitted r2\<rparr>\<rparr>
           in Returns ((r2, None), setProcessing False e1))
        else Blocked)"

section \<open>The connection\<close>

definition StopGetWork :: "EPOCH \<Rightarrow> EPOCH" where
  "StopGetWork e = (if IsActive e then e\<lparr>conn_ws := None\<rparr> else e)"

text \<open>
  \<^verbatim>\<open>StartGetWork(address, endpoint)\<close>; \<open>dial_ok\<close> says whether \<^verbatim>\<open>DialContext\<close> connects.
  \<^verbatim>\<open>make(chan struct{}, n)\<close> panics for a negative \<open>n\<close>. The goroutine it starts is the
  read loop, whose iterations are \<open>read_loop\<close> below.
\<close>

definition StartGetWork :: "ext \<Rightarrow> bool \<Rightarrow> string \<Rightarrow> string \<Rightarrow> EPOCH \<Rightarrow> (error option \<times> EPOCH) run" where
  "StartGetWork x dial_ok addr endpoint e =
     (if IsActive e then Returns (Some ErrAlreadyRunning, e)
      else
        (case SplitHostPort x endpoint of
           None \<Rightarrow> Returns (Some ErrCouldNotGetHost, e)
         | Some host \<Rightarrow>
             (let (serr, e1) = (if addr \<noteq> [] then SetAddress x addr e else (None, e))
              in if serr \<noteq> None then Returns (Some ErrCouldNotSetAddress, e1)
                 else if \<not> ParseValidateAddress x (address e1)
                 then Returns (Some (ErrAddressNotValid (address e1)), e1)
                 else if \<not> dial_ok then Returns (Some ErrDial, e1\<lparr>conn_ws := None\<rparr>)
                 else if maxThreads e1 < 0 then Panics
                 else Returns (None,
                   e1\<lparr>conn_ws := Some \<lparr>written = [], writeErr = False\<rparr>,
                      session := (session e1)\<lparr>sessionHashes := 0, sessionMinis := 0\<rparr>,
                      semaphore := Some \<lparr>cap = nat (maxThreads e1), len = 0\<rparr>\<rparr>))))"

text \<open>
  One iteration of the read loop on a live connection: \<^verbatim>\<open>ReadJSON\<close> delivers a job
  template (\<open>Some job\<close>), which \<^verbatim>\<open>newJob\<close> stores, or fails (\<open>None\<close>), which ends the loop
  through the deferred \<^verbatim>\<open>StopGetWork\<close>.
\<close>

definition read_loop :: "GetBlockTemplate_Result option \<Rightarrow> EPOCH \<Rightarrow> EPOCH run" where
  "read_loop msg e =
     (if \<not> IsActive e then Blocked
      else case msg of
             Some job \<Rightarrow> Returns (snd (newJob job e))
           | None \<Rightarrow> Returns (StopGetWork e))"

text \<open>
  \<^verbatim>\<open>GetSession(timeout)\<close> polls until the engine is not processing or the timer fires.
  \<open>polls\<close> are the engine states its polls see before the timer fires, in order.
\<close>

fun GetSession :: "EPOCH list \<Rightarrow> GetSessionEPOCH_Result \<times> error option" where
  "GetSession [] = (zero_session, Some ErrSessionTimeout)"
| "GetSession (e # polls) = (if \<not> IsProcessing e then (session e, None) else GetSession polls)"

definition GetSessionEPOCH :: "EPOCH \<Rightarrow> EPOCH list \<Rightarrow> GetSessionEPOCH_Result \<times> error option" where
  "GetSessionEPOCH e polls =
     (if \<not> IsActive e then (zero_session, Some ErrNotActive) else GetSession polls)"

section \<open>Runs of one call\<close>

text \<open>
  What happens between the entry of a call and its return: steps of the call itself
  and iterations of the read loop, in the order of the list. A list under which a step
  cannot be taken, or which ends before the call can return, is not a run of the call:
  the result is \<open>Blocked\<close>.
\<close>

datatype event = Step step | Read "GetBlockTemplate_Result option"

fun event_step :: "ext \<Rightarrow> event \<Rightarrow> EPOCH \<times> call \<Rightarrow> (EPOCH \<times> call) run" where
  "event_step x (Step st) s = call_step x st s"
| "event_step x (Read msg) (e, c) = bind_run (read_loop msg e) (\<lambda>e'. Returns (e', c))"

fun run_events :: "ext \<Rightarrow> event list \<Rightarrow> EPOCH \<times> call \<Rightarrow> (EPOCH \<times> call) run" where
  "run_events x [] s = Returns s"
| "run_events x (ev # evs) s = bind_run (event_step x ev s) (run_events x evs)"

text \<open>
  \<^verbatim>\<open>AttemptHashes(hashes)\<close> and \<^verbatim>\<open>SubmitHashes(params)\<close> under the run \<open>evs\<close>, with the
  elapsed time the clock shows at the end. Next to the Go results and the engine state
  the functions give the call's frame at the return (\<open>None\<close> when the call is rejected
  before its loop), for its counters.
\<close>

definition AttemptHashes ::
  "ext \<Rightarrow> event list \<Rightarrow> int \<Rightarrow> int \<Rightarrow> EPOCH \<Rightarrow>
     ((EPOCH_Result \<times> error option) \<times> EPOCH \<times> call option) run" where
  "AttemptHashes x evs elapsed n e =
     (case AttemptHashes_begin n e of
        Inl err \<Rightarrow> Returns ((zero_result, Some err), e, None)
      | Inr s \<Rightarrow>
          bind_run (run_events x evs s)
            (\<lambda>s'. bind_run (AttemptHashes_end elapsed s')
               (\<lambda>(r, e'). Returns (r, e', Some (snd s')))))"

definition SubmitHashes ::
  "ext \<Rightarrow> event list \<Rightarrow> int \<Rightarrow> Submit_Params list \<Rightarrow> EPOCH \<Rightarrow>
     ((EPOCH_Result \<times> error option) \<times> EPOCH \<times> call option) run" where
  "SubmitHashes x evs elapsed params e =
     (case SubmitHashes_begin params e of
        Inl err \<Rightarrow> Returns ((zero_result, Some err), e, None)
      | Inr s \<Rightarrow>
          bind_run (run_events x evs s)
            (\<lambda>s'. bind_run (SubmitHashes_end elapsed s')
               (\<lambda>(r, e'). Returns (r, e', Some (snd s')))))"

section \<open>The engine with overlapping calls\<close>

text \<open>
  The package as a transition system: the engine state and the frames of the calls of
  \<^verbatim>\<open>AttemptHashes\<close> and \<^verbatim>\<open>SubmitHashes\<close> that have not returned. An event is a call of
  an exported function, a step of one frame, the return of one frame, or an iteration
  of the read loop.
\<close>

datatype gevent =
    GSetAddress string
  | GSetPort int
  | GSetMaxHashes int
  | GSetMaxThreads int
  | GStartGetWork bool string string
  | GStopGetWork
  | GRead "GetBlockTemplate_Result option"
  | GAttemptHashes int
  | GSubmitHashes "Submit_Params list"
  | GStep nat step
  | GReturn nat int

type_synonym config = "EPOCH \<times> call list"

definition call_end :: "int \<Rightarrow> EPOCH \<times> call \<Rightarrow> ((EPOCH_Result \<times> error option) \<times> EPOCH) run" where
  "call_end elapsed s =
     (case kind (snd s) of
        AttemptCall \<Rightarrow> AttemptHashes_end elapsed s
      | SubmitCall \<Rightarrow> SubmitHashes_end elapsed s)"

fun gstep :: "ext \<Rightarrow> gevent \<Rightarrow> config \<Rightarrow> config run" where
  "gstep x (GSetAddress a) (e, cs) = Returns (snd (SetAddress x a e), cs)"
| "gstep x (GSetPort p) (e, cs) = Returns (snd (SetPort p e), cs)"
| "gstep x (GSetMaxHashes n) (e, cs) = Returns (snd (SetMaxHashes n e), cs)"
| "gstep x (GSetMaxThreads n) (e, cs) = Returns (SetMaxThreads x n e, cs)"
| "gstep x (GStartGetWork dial_ok a ep) (e, cs) =
     bind_run (StartGetWork x dial_ok a ep e) (\<lambda>(err, e'). Returns (e', cs))"
| "gstep x GStopGetWork (e, cs) = Returns (StopGetWork e, cs)"
| "gstep x (GRead msg) (e, cs) = bind_run (read_loop msg e) (\<lambda>e'. Returns (e', cs))"
| "gstep x (GAttemptHashes n) (e, cs) =
     (case AttemptHashes_begin n e of
        Inl err \<Rightarrow> Returns (e, cs)
      | Inr (e', c) \<Rightarrow> Returns (e', cs @ [c]))"
| "gstep x (GSubmitHashes ps) (e, cs) =
     (case SubmitHashes_begin ps e of
        Inl err \<Rightarrow> Returns (e, cs)
      | Inr (e', c) \<Rightarrow> Returns (e', cs @ [c]))"
| "gstep x (GStep k st) (e, cs) =
     (if \<not> k < length cs then Blocked
      else bind_run (call_step x st (e, cs ! k)) (\<lambda>(e', c'). Returns (e', cs[k := c'])))"
| "gstep x (GReturn k elapsed) (e, cs) =
     (if \<not> k < length cs then Blocked
      else bind_run (call_end elapsed (e, cs ! k)) (\<lambda>(r, e'). Returns (e', remove_nth k cs)))"

fun grun :: "ext \<Rightarrow> gevent list \<Rightarrow> config \<Rightarrow> config run" where
  "grun x [] s = Returns s"
| "grun x (ev # evs) s = bind_run (gstep x ev s) (grun x evs)"



text \<open>
  A sample of the external functions, for evaluating the model at concrete inputs: four
  CPUs, every non-empty address valid, every endpoint's host \<open>''node''\<close>, every difficulty
  1, a hash of 32 zero bytes that meets every difficulty.
\<close>

definition sample_ext :: ext where
  "sample_ext = \<lparr>NumCPU = 4, ParseValidateAddress = (\<lambda>a. a \<noteq> []),
     SplitHostPort = (\<lambda>s. Some ''node''), SetString = (\<lambda>s. 1),
     AstroBWTv3 = (\<lambda>w. replicate 32 0), CheckPowHashBig = (\<lambda>h d. Some True)\<rparr>"

text \<open>
  A sample engine: the initial engine after a successful \<^verbatim>\<open>StartGetWork\<close>, before the
  read loop has stored a job; the README's job template; a sample entry of the params
  of \<^verbatim>\<open>SubmitHashes\<close>; and what a goroutine meets when its write succeeds or fails.
\<close>

definition sample_engine :: EPOCH where
  "sample_engine =
     (case StartGetWork sample_ext True ''deto1qy'' ''127.0.0.1:20000'' (init sample_ext) of
        Returns (err, e) \<Rightarrow> e
      | _ \<Rightarrow> init sample_ext)"

text \<open>The same with a worker limit of 1 set before \<^verbatim>\<open>StartGetWork\<close>.\<close>

definition single_worker_engine :: EPOCH where
  "single_worker_engine =
     (case StartGetWork sample_ext True ''deto1qy'' ''127.0.0.1:20000''
             (SetMaxThreads sample_ext 1 (init sample_ext)) of
        Returns (err, e) \<Rightarrow> e
      | _ \<Rightarrow> init sample_ext)"

definition sample_job :: GetBlockTemplate_Result where
  "sample_job = zero_job\<lparr>JobID := ''1722895096807.0.notified'',
     Blockhashing_blob :=
       ''41dc0600000002062bb9d17900000000a12fda3f33403ee25f490fe665a93a3e0000000056790bb6dd9f5bdad5a18d87'',
     Difficulty := ''1'', Difficultyuint64 := 1, Height := 518\<rparr>"

definition write_succeeds :: task_env where
  "write_succeeds = \<lparr>random = [], write_ok = True\<rparr>"

definition write_fails :: task_env where
  "write_fails = \<lparr>random = [], write_ok = False\<rparr>"

definition sample_params :: Submit_Params where
  "sample_params = \<lparr>Job = sample_job, PowHash = replicate 32 0,
     EpochWork = replicate 48 0, sp_Difficulty = 1\<rparr>"

text \<open>
  Properties of a frame that every step keeps, used in the proofs below. \<open>pending\<close>
  counts the goroutines that have neither failed nor written \<^verbatim>\<open>i\<close> yet.
\<close>

fun writes_i :: "task \<Rightarrow> bool" where
  "writes_i (LoadI valid) = True"
| "writes_i (StoreI v valid) = True"
| "writes_i t = False"

fun weight :: "task \<Rightarrow> nat" where
  "weight LoadS = 0"
| "weight (StoreS v) = 0"
| "weight Release = 0"
| "weight t = 1"

definition pending :: "task list \<Rightarrow> nat" where
  "pending ts = sum_list (map weight ts)"

definition next_weight :: "task option \<Rightarrow> nat" where
  "next_weight nt = (case nt of None \<Rightarrow> 0 | Some t \<Rightarrow> weight t)"

definition attempt_ok :: "call \<Rightarrow> bool" where
  "attempt_ok c \<longleftrightarrow>
     kind c = AttemptCall \<and> loop_i c = int (launched c) \<and> loop_i c \<le> max 0 (hashes c) \<and>
     (pc c = Acquiring \<longrightarrow> loop_i c < hashes c) \<and> (\<forall>t \<in> set (running c). \<not> writes_i t)"

definition submit_ok :: "nat \<Rightarrow> call \<Rightarrow> bool" where
  "submit_ok n c \<longleftrightarrow>
     kind c = SubmitCall \<and> 0 \<le> loop_i c \<and>
     loop_i c + int (pending (running c)) + int (failed c) \<le> int (launched c) \<and>
     launched c + length (rest c) = n \<and>
     (\<forall>v b. StoreI v b \<in> set (running c) \<longrightarrow>
        0 \<le> v \<and> v + int (pending (running c)) + int (failed c) \<le> int (launched c))"

text \<open>
  With at most one free slot in the channel the frame has at most one goroutine, and
  then no write of \<^verbatim>\<open>i\<close> is lost.
\<close>

definition serial_ok :: "EPOCH \<times> call \<Rightarrow> bool" where
  "serial_ok s \<longleftrightarrow>
     (case s of (e, c) \<Rightarrow>
        kind c = SubmitCall \<and> length (running c) \<le> 1 \<and>
        (\<exists>ch. semaphore e = Some ch \<and> cap ch + length (running c) \<le> len ch + 1) \<and>
        loop_i c + int (pending (running c)) + int (failed c) = int (launched c) \<and>
        (\<forall>v b. StoreI v b \<in> set (running c) \<longrightarrow> v = loop_i c))"

text \<open>An empty batch: the frame never leaves its initial values.\<close>

definition idle :: "call \<Rightarrow> bool" where
  "idle c \<longleftrightarrow> kind c = SubmitCall \<and> rest c = [] \<and> running c = [] \<and> pc c \<noteq> Acquiring \<and>
     loop_i c = 0 \<and> result c = zero_result"

text \<open>The README's job template with one more byte in its hashing blob.\<close>

definition long_blob_job :: GetBlockTemplate_Result where
  "long_blob_job = sample_job\<lparr>Blockhashing_blob := Blockhashing_blob sample_job @ ''00''\<rparr>"


text \<open>The sample engine after a batch that launched one goroutine.\<close>

definition after_batch :: EPOCH where
  "after_batch = sample_engine\<lparr>session := \<lparr>sessionHashes = 1, sessionMinis = 0, sessionVersion = []\<rparr>\<rparr>"
section \<open>Configuration: theorems\<close>

text \<open>
  C8. A job template stored with \<^verbatim>\<open>newJob\<close> and read back with \<^verbatim>\<open>getJob\<close> is the
  template that was stored, field for field, and \<^verbatim>\<open>newJob\<close> returns the template's
  \<^verbatim>\<open>LastError\<close>.
\<close>

theorem newJob_getJob_roundtrip:
  "getJob (snd (newJob t e)) = t \<and> fst (newJob t e) = LastError t"
  by (simp add: newJob_def getJob_def)

text \<open>
  C4 (as stated: \<^verbatim>\<open>SetMaxHashes(i)\<close> clamps, the ceiling afterwards is
  \<open>min i LIMIT_MAX_HASHES\<close>). It fails above the limit: \<^verbatim>\<open>SetMaxHashes(10001)\<close> on the
  initial engine returns an error and the ceiling stays 1000, not 10000.
\<close>

theorem SetMaxHashes_does_not_clamp:
  "GetMaxHashes (snd (SetMaxHashes 10001 (init sample_ext))) = 1000 \<and>
   min 10001 LIMIT_MAX_HASHES = 10000 \<and>
   fst (SetMaxHashes 10001 (init sample_ext)) = Some (ErrCannotExceed 10000)"
  by (simp add: SetMaxHashes_def GetMaxHashes_def init_def SetMaxThreads_def
      LIMIT_MAX_HASHES_def Let_def)

text \<open>
  C4 (amended). \<^verbatim>\<open>SetMaxHashes(i)\<close> rejects instead of clamping: for
  \<open>i \<le> LIMIT_MAX_HASHES\<close> it returns no error and the ceiling becomes \<open>i\<close> (which is
  \<open>min i LIMIT_MAX_HASHES\<close>); for \<open>i > LIMIT_MAX_HASHES\<close> it returns an error and leaves
  the engine, hence the ceiling, unchanged. \<open>LIMIT_MAX_HASHES\<close> is 10000.
\<close>

theorem SetMaxHashes_accepts_or_rejects:
  "LIMIT_MAX_HASHES = 10000 \<and>
   (i \<le> LIMIT_MAX_HASHES \<longrightarrow>
      fst (SetMaxHashes i e) = None \<and>
      GetMaxHashes (snd (SetMaxHashes i e)) = i \<and> i = min i LIMIT_MAX_HASHES) \<and>
   (i > LIMIT_MAX_HASHES \<longrightarrow>
      fst (SetMaxHashes i e) = Some (ErrCannotExceed LIMIT_MAX_HASHES) \<and>
      snd (SetMaxHashes i e) = e)"
  by (simp add: SetMaxHashes_def GetMaxHashes_def LIMIT_MAX_HASHES_def)

theorem SetMaxHashes_accepts_or_rejects_witness:
  "GetMaxHashes (snd (SetMaxHashes 999 (init sample_ext))) = 999 \<and>
   fst (SetMaxHashes 999 (init sample_ext)) = None \<and>
   snd (SetMaxHashes 10001 (init sample_ext)) = init sample_ext"
  using SetMaxHashes_accepts_or_rejects [of 999 "init sample_ext"]
    SetMaxHashes_accepts_or_rejects [of 10001 "init sample_ext"]
  by simp

text \<open>
  C7. With \<open>NumCPU\<close> the number of CPUs the runtime reports (at least 1), the worker
  limit after \<^verbatim>\<open>SetMaxThreads(i)\<close> is \<open>i\<close> clamped to \<open>[1, NumCPU]\<close>: \<open>NumCPU\<close> for a
  larger \<open>i\<close>, 1 for \<open>i < 1\<close>, and \<open>i\<close> itself in between.
\<close>

theorem SetMaxThreads_clamps:
  assumes "1 \<le> NumCPU x"
  shows "GetMaxThreads (SetMaxThreads x i e) = max 1 (min i (NumCPU x)) \<and>
    (i > NumCPU x \<longrightarrow> GetMaxThreads (SetMaxThreads x i e) = NumCPU x) \<and>
    (i < 1 \<longrightarrow> GetMaxThreads (SetMaxThreads x i e) = 1) \<and>
    (1 \<le> i \<and> i \<le> NumCPU x \<longrightarrow> GetMaxThreads (SetMaxThreads x i e) = i)"
  using assms by (auto simp: SetMaxThreads_def GetMaxThreads_def Let_def)

theorem SetMaxThreads_clamps_witness:
  "1 \<le> NumCPU sample_ext \<and>
   GetMaxThreads (SetMaxThreads sample_ext 5 zero_EPOCH) = 4 \<and>
   GetMaxThreads (SetMaxThreads sample_ext 0 zero_EPOCH) = 1 \<and>
   GetMaxThreads (SetMaxThreads sample_ext 3 zero_EPOCH) = 3"
proof -
  have h: "1 \<le> NumCPU sample_ext" by (simp add: sample_ext_def)
  have n: "NumCPU sample_ext = 4" by (simp add: sample_ext_def)
  show ?thesis
    using h SetMaxThreads_clamps [OF h, of 5 zero_EPOCH]
      SetMaxThreads_clamps [OF h, of 0 zero_EPOCH]
      SetMaxThreads_clamps [OF h, of 3 zero_EPOCH]
    by (simp add: n)
qed

section \<open>Steps and runs: lemmas\<close>

declare decimal.simps [simp del]

lemma bind_run_Returns:
  "bind_run m f = Returns y \<longleftrightarrow> (\<exists>a. m = Returns a \<and> f a = Returns y)"
  by (cases m) auto

lemma sem_send_Returns:
  "sem_send e = Returns e' \<longleftrightarrow>
     (\<exists>ch. semaphore e = Some ch \<and> len ch < cap ch \<and>
        e' = e\<lparr>semaphore := Some (ch\<lparr>len := len ch + 1\<rparr>)\<rparr>)"
  by (auto simp: sem_send_def split: option.splits)

lemma sem_recv_Returns:
  "sem_recv e = Returns e' \<longleftrightarrow>
     (\<exists>ch. semaphore e = Some ch \<and> 0 < len ch \<and>
        e' = e\<lparr>semaphore := Some (ch\<lparr>len := len ch - 1\<rparr>)\<rparr>)"
  by (auto simp: sem_recv_def split: option.splits)

lemma submitBlock_send_Returns:
  "submitBlock_send x w j p wk d e = Returns (r, e') \<Longrightarrow>
     session e' = session e \<and> semaphore e' = semaphore e"
  by (auto simp: submitBlock_send_def split: option.splits bool.splits if_splits)

lemma read_loop_Returns:
  "read_loop msg e = Returns e' \<Longrightarrow> semaphore e' = semaphore e \<and> session e' = session e"
  by (auto simp: read_loop_def newJob_def StopGetWork_def split: if_splits option.splits)

text \<open>What a step of a goroutine leaves as it is.\<close>

lemma task_step_frame:
  assumes "task_step x t tk (e, c) = Returns (e', c', nt)"
  shows "session e' = session e \<and> kind c' = kind c \<and> hashes c' = hashes c \<and> rest c' = rest c \<and>
         running c' = running c \<and> pc c' = pc c \<and> launched c' = launched c"
  using assms
  by (cases tk)
     (auto simp: bind_run_Returns set_Error_def sem_recv_Returns
       split: option.splits if_splits prod.splits dest: submitBlock_send_Returns)

lemma task_step_semaphore:
  assumes "task_step x t tk (e, c) = Returns (e', c', nt)"
  shows "(nt \<noteq> None \<longrightarrow> semaphore e' = semaphore e) \<and>
         (nt = None \<longrightarrow> sem_recv e = Returns e')"
  using assms
  by (cases tk)
     (auto simp: bind_run_Returns set_Error_def
       split: option.splits if_splits prod.splits dest: submitBlock_send_Returns)

lemma set_remove_nth: "set (remove_nth k xs) \<subseteq> set xs"
  unfolding remove_nth_def using set_take_subset [of k xs] set_drop_subset [of "Suc k" xs]
  by auto


lemma call_step_LoopHead:
  assumes "call_step x LoopHead (e, c) = Returns (e', c')"
  shows "e' = e \<and> pc c = AtLoopHead \<and> (\<exists>q. c' = c\<lparr>pc := q\<rparr> \<and>
           (q = Acquiring \<longrightarrow> Error (result c) = None \<and>
              (case kind c of AttemptCall \<Rightarrow> loop_i c < hashes c | SubmitCall \<Rightarrow> rest c \<noteq> [])))"
  using assms by (cases "kind c") (auto split: if_splits)

lemma call_step_Launch_attempt:
  assumes "call_step x Launch (e, c) = Returns (e', c')" and "kind c = AttemptCall"
  shows "pc c = Acquiring \<and> sem_send e = Returns e' \<and>
     c' = c\<lparr>running := running c @ [Start], loop_i := loop_i c + 1,
            launched := launched c + 1, pc := AtLoopHead\<rparr>"
  using assms by (auto simp: bind_run_Returns split: if_splits)

lemma call_step_Launch_submit:
  assumes "call_step x Launch (e, c) = Returns (e', c')" and "kind c = SubmitCall"
  shows "pc c = Acquiring \<and> sem_send e = Returns e' \<and>
     (\<exists>p ps. rest c = p # ps \<and>
        c' = c\<lparr>running := running c @ [Submit (Job p) (PowHash p) (EpochWork p) (sp_Difficulty p)],
               rest := ps, launched := launched c + 1, pc := AtLoopHead\<rparr>)"
  using assms by (cases "rest c") (auto simp: bind_run_Returns split: if_splits)

lemma call_step_Launch:
  assumes "call_step x Launch (e, c) = Returns (e', c')"
  shows "sem_send e = Returns e' \<and> length (running c') = length (running c) + 1"
proof (cases "kind c")
  case AttemptCall
  from call_step_Launch_attempt [OF assms AttemptCall] show ?thesis by simp
next
  case SubmitCall
  from call_step_Launch_submit [OF assms SubmitCall] show ?thesis by auto
qed

lemma call_step_TaskStep:
  assumes "call_step x (TaskStep k t) (e, c) = Returns (e', c')"
  shows "k < length (running c) \<and>
     (\<exists>c1 nt. task_step x t (running c ! k) (e, c) = Returns (e', c1, nt) \<and>
        c' = c1\<lparr>running := (case nt of Some t' \<Rightarrow> (running c1)[k := t']
                               | None \<Rightarrow> remove_nth k (running c1))\<rparr>)"
  using assms by (auto simp: bind_run_Returns split: if_splits)

declare call_step.simps [simp del]

declare task_step.simps [simp del]

lemma call_step_session:
  assumes "call_step x st (e, c) = Returns (e', c')"
  shows "session e' = session e"
proof (cases st)
  case LoopHead
  with assms show ?thesis by (auto dest: call_step_LoopHead)
next
  case Launch
  with assms have "sem_send e = Returns e'" by (simp add: call_step_Launch)
  then show ?thesis by (auto simp: sem_send_Returns)
next
  case (TaskStep k t)
  with assms obtain c1 nt where "task_step x t (running c ! k) (e, c) = Returns (e', c1, nt)"
    by (auto dest: call_step_TaskStep)
  then show ?thesis by (simp add: task_step_frame)
qed

text \<open>In a frame of \<^verbatim>\<open>AttemptHashes\<close> no goroutine touches \<^verbatim>\<open>i\<close>.\<close>

lemma task_step_attempt:
  assumes "task_step x t tk (e, c) = Returns (e', c1, nt)"
    and "kind c = AttemptCall" and "\<not> writes_i tk"
  shows "loop_i c1 = loop_i c \<and> (\<forall>t'. nt = Some t' \<longrightarrow> \<not> writes_i t')"
  using assms
  by (cases tk)
     (auto simp: task_step.simps bind_run_Returns set_Error_def
       split: option.splits if_splits prod.splits)

lemma call_step_attempt_ok:
  assumes "call_step x st (e, c) = Returns (e', c')" and "attempt_ok c"
  shows "attempt_ok c' \<and> hashes c' = hashes c"
proof (cases st)
  case LoopHead
  with assms show ?thesis
    by (auto simp: attempt_ok_def dest!: call_step_LoopHead)
next
  case Launch
  with assms show ?thesis
    by (auto simp: attempt_ok_def dest!: call_step_Launch_attempt)
next
  case (TaskStep k t)
  from assms(2) have all: "\<forall>t \<in> set (running c). \<not> writes_i t" and kd: "kind c = AttemptCall"
    by (simp_all add: attempt_ok_def)
  from TaskStep assms(1) obtain c1 nt where k: "k < length (running c)"
    and b: "task_step x t (running c ! k) (e, c) = Returns (e', c1, nt)"
    and c': "c' = c1\<lparr>running := (case nt of Some t' \<Rightarrow> (running c1)[k := t']
                               | None \<Rightarrow> remove_nth k (running c1))\<rparr>"
    by (auto dest!: call_step_TaskStep)
  from k all have "\<not> writes_i (running c ! k)" by simp
  from task_step_attempt [OF b kd this]
  have i: "loop_i c1 = loop_i c" and nw: "\<forall>t'. nt = Some t' \<longrightarrow> \<not> writes_i t'" by simp_all
  note fr = task_step_frame [OF b]
  have "\<forall>t \<in> set (running c'). \<not> writes_i t"
  proof (cases nt)
    case None
    with c' fr all set_remove_nth [of k "running c"] show ?thesis by auto
  next
    case (Some t')
    with c' fr all nw set_update_subset_insert [of "running c" k t'] show ?thesis by auto
  qed
  with assms(2) fr i c' show ?thesis
    by (auto simp: attempt_ok_def)
qed

lemma pending_append: "pending (ts @ [t]) = pending ts + weight t"
  by (simp add: pending_def)

lemma pending_split:
  assumes "k < length ts"
  shows "\<exists>W0. pending ts = W0 + weight (ts ! k) \<and> (\<forall>t'. pending (ts[k := t']) = W0 + weight t') \<and>
           pending (remove_nth k ts) = W0"
proof -
  from assms have ts: "ts = take k ts @ ts ! k # drop (Suc k) ts"
    by (rule id_take_nth_drop)
  have "pending ts = pending (take k ts) + pending (drop (Suc k) ts) + weight (ts ! k)"
    by (subst ts) (simp add: pending_def)
  moreover have "\<forall>t'. pending (ts[k := t']) = pending (take k ts) + pending (drop (Suc k) ts) + weight t'"
    using assms by (simp add: upd_conv_take_nth_drop pending_def)
  moreover have "pending (remove_nth k ts) = pending (take k ts) + pending (drop (Suc k) ts)"
    by (simp add: remove_nth_def pending_def)
  ultimately show ?thesis by blast
qed

text \<open>
  A step of a goroutine of \<^verbatim>\<open>SubmitHashes\<close> never raises \<^verbatim>\<open>i\<close> above what the
  launched goroutines that have not failed allow.
\<close>

lemma task_step_potential:
  assumes "task_step x t tk (e, c) = Returns (e', c1, nt)" and "kind c = SubmitCall"
    and "0 \<le> loop_i c" and "loop_i c + int (W0 + weight tk) + int (failed c) \<le> L"
    and "\<forall>v b. tk = StoreI v b \<longrightarrow> 0 \<le> v \<and> v + int (W0 + weight tk) + int (failed c) \<le> L"
  shows "0 \<le> loop_i c1 \<and> loop_i c1 + int (W0 + next_weight nt) + int (failed c1) \<le> L \<and>
         W0 + next_weight nt + failed c1 \<le> W0 + weight tk + failed c \<and>
         (\<forall>v b. nt = Some (StoreI v b) \<longrightarrow>
            0 \<le> v \<and> v + int (W0 + next_weight nt) + int (failed c1) \<le> L)"
  using assms
  by (cases tk)
     (auto simp: task_step.simps bind_run_Returns set_Error_def next_weight_def
       split: option.splits if_splits prod.splits)

lemma call_step_submit_ok:
  assumes "call_step x st (e, c) = Returns (e', c')" and "submit_ok n c"
  shows "submit_ok n c'"
proof (cases st)
  case LoopHead
  with assms show ?thesis
    by (fastforce simp: submit_ok_def dest!: call_step_LoopHead)
next
  case Launch
  with assms show ?thesis
    by (fastforce simp: submit_ok_def pending_append dest!: call_step_Launch_submit)
next
  case (TaskStep k t)
  let ?L = "int (launched c)"
  from assms(2) have kd: "kind c = SubmitCall" and nn: "0 \<le> loop_i c"
    and le: "loop_i c + int (pending (running c)) + int (failed c) \<le> ?L"
    and n: "launched c + length (rest c) = n"
    and st: "\<forall>v b. StoreI v b \<in> set (running c) \<longrightarrow>
        0 \<le> v \<and> v + int (pending (running c)) + int (failed c) \<le> ?L"
    by (simp_all add: submit_ok_def)
  from TaskStep assms(1) obtain c1 nt where k: "k < length (running c)"
    and b: "task_step x t (running c ! k) (e, c) = Returns (e', c1, nt)"
    and c': "c' = c1\<lparr>running := (case nt of Some t' \<Rightarrow> (running c1)[k := t']
                               | None \<Rightarrow> remove_nth k (running c1))\<rparr>"
    by (auto dest!: call_step_TaskStep)
  note fr = task_step_frame [OF b]
  from pending_split [OF k] obtain W0 where
    W: "pending (running c) = W0 + weight (running c ! k)"
    and Wu: "\<forall>t'. pending ((running c)[k := t']) = W0 + weight t'"
    and Wr: "pending (remove_nth k (running c)) = W0"
    by blast
  have p': "pending (running c') = W0 + next_weight nt"
    using c' fr Wu Wr by (cases nt) (simp_all add: next_weight_def)
  from k have mem: "running c ! k \<in> set (running c)" by simp
  have tk: "\<forall>v b. running c ! k = StoreI v b \<longrightarrow>
      0 \<le> v \<and> v + int (W0 + weight (running c ! k)) + int (failed c) \<le> ?L"
    using st mem W by (metis of_nat_add)
  from le W have le': "loop_i c + int (W0 + weight (running c ! k)) + int (failed c) \<le> ?L"
    by simp
  from task_step_potential [OF b kd nn le' tk]
  have nn1: "0 \<le> loop_i c1"
    and le1: "loop_i c1 + int (W0 + next_weight nt) + int (failed c1) \<le> ?L"
    and mono: "W0 + next_weight nt + failed c1 \<le> W0 + weight (running c ! k) + failed c"
    and new: "\<forall>v b. nt = Some (StoreI v b) \<longrightarrow>
            0 \<le> v \<and> v + int (W0 + next_weight nt) + int (failed c1) \<le> ?L"
    by simp_all
  have sub: "set (running c') \<subseteq> set (running c) \<union> (case nt of None \<Rightarrow> {} | Some t' \<Rightarrow> {t'})"
    using c' fr set_remove_nth [of k "running c"]
    by (cases nt) (auto dest: set_update_subset_insert [THEN subsetD])
  have st': "\<forall>v b. StoreI v b \<in> set (running c') \<longrightarrow>
        0 \<le> v \<and> v + int (pending (running c')) + int (failed c') \<le> int (launched c')"
  proof (intro allI impI)
    fix v b assume "StoreI v b \<in> set (running c')"
    with sub have "StoreI v b \<in> set (running c) \<or> nt = Some (StoreI v b)"
      by (cases nt) auto
    then show "0 \<le> v \<and> v + int (pending (running c')) + int (failed c') \<le> int (launched c')"
    proof
      assume "StoreI v b \<in> set (running c)"
      with st W have "0 \<le> v" and "v + int (W0 + weight (running c ! k)) + int (failed c) \<le> ?L"
        by auto
      with mono p' c' fr show ?thesis by auto
    next
      assume "nt = Some (StoreI v b)"
      with new p' c' fr show ?thesis by auto
    qed
  qed
  from nn1 le1 p' c' fr kd n st' show ?thesis
    by (auto simp: submit_ok_def)
qed

lemma task_step_serial:
  assumes "task_step x t tk (e, c) = Returns (e', c1, nt)" and "kind c = SubmitCall"
    and "\<forall>v b. tk = StoreI v b \<longrightarrow> v = loop_i c"
  shows "loop_i c1 + int (next_weight nt) + int (failed c1) = loop_i c + int (weight tk) + int (failed c) \<and>
         (\<forall>v b. nt = Some (StoreI v b) \<longrightarrow> v = loop_i c1)"
  using assms
  by (cases tk)
     (auto simp: task_step.simps bind_run_Returns set_Error_def next_weight_def
       split: option.splits if_splits prod.splits)

lemma call_step_serial_ok:
  assumes "call_step x st (e, c) = Returns (e', c')" and "serial_ok (e, c)"
  shows "serial_ok (e', c')"
proof (cases st)
  case LoopHead
  with assms show ?thesis
    by (fastforce simp: serial_ok_def dest!: call_step_LoopHead)
next
  case Launch
  from assms(2) have kd: "kind c = SubmitCall" by (simp add: serial_ok_def)
  note L = call_step_Launch_submit [OF assms(1) [unfolded Launch] kd]
  from L have s: "sem_send e = Returns e'" by simp
  then obtain ch where ch: "semaphore e = Some ch" "len ch < cap ch"
    and e': "e' = e\<lparr>semaphore := Some (ch\<lparr>len := len ch + 1\<rparr>)\<rparr>"
    by (auto simp: sem_send_Returns)
  from assms(2) ch have "cap ch + length (running c) \<le> len ch + 1"
    by (auto simp: serial_ok_def)
  with ch(2) have "\<not> 0 < length (running c)" by arith
  then have r: "running c = []" by simp
  from L assms(2) ch r show ?thesis
    unfolding e' by (auto simp: serial_ok_def pending_def)
next
  case (TaskStep k t)
  from assms(2) have kd: "kind c = SubmitCall" and l1: "length (running c) \<le> 1"
    and eq: "loop_i c + int (pending (running c)) + int (failed c) = int (launched c)"
    and st: "\<forall>v b. StoreI v b \<in> set (running c) \<longrightarrow> v = loop_i c"
    by (simp_all add: serial_ok_def)
  from assms(2) obtain ch where ch: "semaphore e = Some ch"
    and cp: "cap ch + length (running c) \<le> len ch + 1"
    by (auto simp: serial_ok_def)
  from TaskStep assms(1) obtain c1 nt where k: "k < length (running c)"
    and b: "task_step x t (running c ! k) (e, c) = Returns (e', c1, nt)"
    and c': "c' = c1\<lparr>running := (case nt of Some t' \<Rightarrow> (running c1)[k := t']
                               | None \<Rightarrow> remove_nth k (running c1))\<rparr>"
    by (auto dest!: call_step_TaskStep)
  note fr = task_step_frame [OF b]
  from k l1 obtain tk where r: "running c = [tk]" and k0: "k = 0"
    by (cases "running c") auto
  from st r have "\<forall>v b. tk = StoreI v b \<longrightarrow> v = loop_i c" by simp
  with task_step_serial [OF b [unfolded r k0, simplified] kd]
  have e1: "loop_i c1 + int (next_weight nt) + int (failed c1)
              = loop_i c + int (weight tk) + int (failed c)"
    and s1: "\<forall>v b. nt = Some (StoreI v b) \<longrightarrow> v = loop_i c1"
    by simp_all
  from eq r have eq0: "loop_i c + int (weight tk) + int (failed c) = int (launched c)"
    by (simp add: pending_def)
  show ?thesis
  proof (cases nt)
    case None
    with task_step_semaphore [OF b] have "sem_recv e = Returns e'" by simp
    with ch have "0 < len ch" and "semaphore e' = Some (ch\<lparr>len := len ch - 1\<rparr>)"
      by (auto simp: sem_recv_Returns)
    with None c' fr r k0 e1 eq0 cp kd show ?thesis
      by (auto simp: serial_ok_def remove_nth_def pending_def next_weight_def)
  next
    case (Some t')
    with task_step_semaphore [OF b] ch have "semaphore e' = Some ch" by simp
    with Some c' fr r k0 e1 eq0 cp kd s1 show ?thesis
      by (auto simp: serial_ok_def pending_def next_weight_def)
  qed
qed

lemma call_step_idle:
  assumes "call_step x st (e, c) = Returns (e', c')" and "idle c"
  shows "idle c'"
proof (cases st)
  case LoopHead
  with assms show ?thesis by (auto simp: idle_def dest!: call_step_LoopHead)
next
  case Launch
  with assms show ?thesis by (auto simp: idle_def dest!: call_step_Launch_submit)
next
  case (TaskStep k t)
  with assms show ?thesis by (auto simp: idle_def dest!: call_step_TaskStep)
qed

lemma event_step_cases:
  assumes "event_step x ev (e, c) = Returns (e', c')"
  obtains st where "ev = Step st" "call_step x st (e, c) = Returns (e', c')"
  | msg where "ev = Read msg" "read_loop msg e = Returns e'" "c' = c"
  using assms by (cases ev) (auto simp: bind_run_Returns)

lemma event_step_session:
  "event_step x ev (e, c) = Returns (e', c') \<Longrightarrow> session e' = session e"
  by (erule event_step_cases) (auto dest: call_step_session read_loop_Returns)

lemma event_step_attempt_ok:
  "event_step x ev (e, c) = Returns (e', c') \<Longrightarrow> attempt_ok c \<Longrightarrow> attempt_ok c' \<and> hashes c' = hashes c"
  by (erule event_step_cases) (auto dest: call_step_attempt_ok)

lemma event_step_submit_ok:
  "event_step x ev (e, c) = Returns (e', c') \<Longrightarrow> submit_ok n c \<Longrightarrow> submit_ok n c'"
  by (erule event_step_cases) (auto dest: call_step_submit_ok)

lemma event_step_idle:
  "event_step x ev (e, c) = Returns (e', c') \<Longrightarrow> idle c \<Longrightarrow> idle c'"
  by (erule event_step_cases) (auto dest: call_step_idle)

lemma event_step_serial_ok:
  assumes "event_step x ev (e, c) = Returns (e', c')" and "serial_ok (e, c)"
  shows "serial_ok (e', c')"
  using assms(1)
proof (cases rule: event_step_cases)
  case (1 st)
  with assms(2) show ?thesis by (auto dest: call_step_serial_ok)
next
  case (2 msg)
  from read_loop_Returns [OF 2(2)] have "semaphore e' = semaphore e" by simp
  with assms(2) 2(3) show ?thesis by (simp add: serial_ok_def)
qed

lemma run_events_induct:
  assumes "run_events x evs (e, c) = Returns (e', c')" and "P (e, c)"
    and "\<And>ev e c e' c'. event_step x ev (e, c) = Returns (e', c') \<Longrightarrow> P (e, c) \<Longrightarrow> P (e', c')"
  shows "P (e', c')"
  using assms(1,2)
proof (induction evs arbitrary: e c)
  case Nil
  then show ?case by simp
next
  case (Cons ev evs)
  then obtain e1 c1 where st: "event_step x ev (e, c) = Returns (e1, c1)"
    and rest: "run_events x evs (e1, c1) = Returns (e', c')"
    by (auto simp: bind_run_Returns)
  from assms(3) [OF st Cons.prems(2)] have "P (e1, c1)" .
  with Cons.IH [OF rest] show ?case .
qed

lemma run_events_session:
  assumes "run_events x evs (e, c) = Returns (e', c')"
  shows "session e' = session e"
proof -
  have "session (fst (e', c')) = session e"
  proof (rule run_events_induct [OF assms, where P = "\<lambda>s. session (fst s) = session e"])
    show "session (fst (e, c)) = session e" by simp
  next
    fix ev e1 c1 e2 c2
    assume "event_step x ev (e1, c1) = Returns (e2, c2)" "session (fst (e1, c1)) = session e"
    then show "session (fst (e2, c2)) = session e" by (auto dest: event_step_session)
  qed
  then show ?thesis by simp
qed

lemma run_events_attempt_ok:
  assumes "run_events x evs (e, c) = Returns (e', c')" and "attempt_ok c"
  shows "attempt_ok c' \<and> hashes c' = hashes c"
proof -
  have "attempt_ok (snd (e', c')) \<and> hashes (snd (e', c')) = hashes c"
  proof (rule run_events_induct [OF assms(1),
        where P = "\<lambda>s. attempt_ok (snd s) \<and> hashes (snd s) = hashes c"])
    show "attempt_ok (snd (e, c)) \<and> hashes (snd (e, c)) = hashes c" using assms(2) by simp
  next
    fix ev e1 c1 e2 c2
    assume "event_step x ev (e1, c1) = Returns (e2, c2)"
      "attempt_ok (snd (e1, c1)) \<and> hashes (snd (e1, c1)) = hashes c"
    then show "attempt_ok (snd (e2, c2)) \<and> hashes (snd (e2, c2)) = hashes c"
      by (auto dest: event_step_attempt_ok)
  qed
  then show ?thesis by simp
qed

lemma run_events_submit_ok:
  assumes "run_events x evs (e, c) = Returns (e', c')" and "submit_ok n c"
  shows "submit_ok n c'"
proof -
  have "submit_ok n (snd (e', c'))"
  proof (rule run_events_induct [OF assms(1), where P = "\<lambda>s. submit_ok n (snd s)"])
    show "submit_ok n (snd (e, c))" using assms(2) by simp
  next
    fix ev e1 c1 e2 c2
    assume "event_step x ev (e1, c1) = Returns (e2, c2)" "submit_ok n (snd (e1, c1))"
    then show "submit_ok n (snd (e2, c2))" by (auto dest: event_step_submit_ok)
  qed
  then show ?thesis by simp
qed

lemma run_events_idle:
  assumes "run_events x evs (e, c) = Returns (e', c')" and "idle c"
  shows "idle c'"
proof -
  have "idle (snd (e', c'))"
  proof (rule run_events_induct [OF assms(1), where P = "\<lambda>s. idle (snd s)"])
    show "idle (snd (e, c))" using assms(2) by simp
  next
    fix ev e1 c1 e2 c2
    assume "event_step x ev (e1, c1) = Returns (e2, c2)" "idle (snd (e1, c1))"
    then show "idle (snd (e2, c2))" by (auto dest: event_step_idle)
  qed
  then show ?thesis by simp
qed

lemma run_events_serial_ok:
  assumes "run_events x evs (e, c) = Returns (e', c')" and "serial_ok (e, c)"
  shows "serial_ok (e', c')"
  by (rule run_events_induct [OF assms(1), where P = serial_ok])
     (use assms(2) in \<open>auto dest: event_step_serial_ok\<close>)

lemma decimal_10100: "decimal 10100 = ''10100''"
  by (simp add: decimal.simps [of 10100] decimal.simps [of 1010] decimal.simps [of 101]
      decimal.simps [of 10] decimal.simps [of "Suc 0"])

lemma sample_engine_eq:
  "sample_engine = \<lparr>conn_ws = Some \<lparr>written = [], writeErr = False\<rparr>, jobs_job = zero_job,
     port = '':10100'', address = ''deto1qy'', processing = False, maxHashes = 1000,
     maxThreads = 2, semaphore = Some \<lparr>cap = 2, len = 0\<rparr>, session = zero_session\<rparr>"
  by (simp add: sample_engine_def StartGetWork_def init_def sample_ext_def IsActive_def
      zero_EPOCH_def SetMaxThreads_def SetAddress_def newJob_def zero_session_def
      DEFAULT_MAX_THREADS_def DEFAULT_WORK_PORT_def Let_def decimal_10100)

lemma single_worker_engine_eq:
  "single_worker_engine = \<lparr>conn_ws = Some \<lparr>written = [], writeErr = False\<rparr>, jobs_job = zero_job,
     port = '':10100'', address = ''deto1qy'', processing = False, maxHashes = 1000,
     maxThreads = 1, semaphore = Some \<lparr>cap = 1, len = 0\<rparr>, session = zero_session\<rparr>"
  by (simp add: single_worker_engine_def StartGetWork_def init_def sample_ext_def IsActive_def
      zero_EPOCH_def SetMaxThreads_def SetAddress_def newJob_def zero_session_def
      DEFAULT_MAX_THREADS_def DEFAULT_WORK_PORT_def Let_def decimal_10100)

lemma attempt_ok_new: "attempt_ok (new_call AttemptCall n [])"
  by (simp add: attempt_ok_def new_call_def)

lemma submit_ok_new: "submit_ok (length ps) (new_call SubmitCall 0 ps)"
  by (simp add: submit_ok_def new_call_def pending_def)

lemma uint_of_nat_le: "uint (word_of_int (int k) :: 64 word) \<le> int k"
  by (simp add: uint_nat unat_of_nat)

lemma uint_word_of_int_le: "0 \<le> i \<Longrightarrow> uint (word_of_int i :: 64 word) \<le> i"
  using uint_of_nat_le [of "nat i"] by simp

lemma SubmitHashes_run:
  assumes "IsActive e" and "int (length ps) \<le> GetMaxHashes e"
    and "SubmitHashes x evs el ps e = Returns ((r, err), e', fr)"
  obtains e1 c where
    "run_events x evs (setProcessing True e, new_call SubmitCall 0 ps) = Returns (e1, c)"
    "SubmitHashes_end el (e1, c) = Returns ((r, err), e')" "fr = Some c"
proof -
  from assms(1,2) have "SubmitHashes_begin ps e = Inr (setProcessing True e, new_call SubmitCall 0 ps)"
    by (simp add: SubmitHashes_begin_def Let_def)
  with assms(3) that show thesis
    by (auto simp: SubmitHashes_def bind_run_Returns)
qed

lemma powHash_no_job:
  "Blockhashing_blob (jobs_job e) = [] \<Longrightarrow>
   powHash x rnd e = Returns (jobs_job e, replicate 32 0, replicate 48 0, 0, Some (ErrDecode 0 None))"
  by (simp add: powHash_def getJob_def hex_Decode_def MINIBLOCK_SIZE_def)

lemmas eval_simps = AttemptHashes_def AttemptHashes_begin_def AttemptHashes_end_def
  SubmitHashes_def SubmitHashes_begin_def SubmitHashes_end_def call_step.simps task_step.simps
  submitBlock_send_def powHash_no_job set_Error_def
  sem_send_def sem_recv_def remove_nth_def new_call_def zero_result_def setProcessing_def
  IsActive_def GetMaxHashes_def Let_def sample_engine_eq zero_session_def zero_job_def
  sample_ext_def write_succeeds_def write_fails_def

lemma serial_ok_new:
  "semaphore e = Some ch \<Longrightarrow> cap ch \<le> len ch + 1 \<Longrightarrow>
   serial_ok (setProcessing True e, new_call SubmitCall 0 ps)"
  by (simp add: serial_ok_def new_call_def pending_def setProcessing_def)

section \<open>The dispatcher: theorems\<close>

text \<open>
  C2 (as stated: when the call is not rejected it launches at most \<open>n\<close> tasks and the
  \<^verbatim>\<open>Hashes\<close> of its result is at most \<open>n\<close>, for every \<open>n\<close>). It fails for a negative
  \<open>n\<close>: \<^verbatim>\<open>AttemptHashes(-1)\<close> on an active engine passes both checks, its loop body never
  runs, and it returns no error with \<^verbatim>\<open>Hashes = 0\<close> and no task launched; 0 is not at
  most -1.
\<close>

theorem AttemptHashes_negative_request:
  "IsActive sample_engine \<and> - 1 \<le> GetMaxHashes sample_engine \<and>
   (case AttemptHashes sample_ext [Step LoopHead] 5 (- 1) sample_engine of
      Returns ((r, err), e', fr) \<Rightarrow>
        err = None \<and> Hashes r = 0 \<and> \<not> uint (Hashes r) \<le> - 1 \<and>
        (case fr of Some c \<Rightarrow> launched c = 0 \<and> \<not> int (launched c) \<le> - 1 | None \<Rightarrow> False)
    | _ \<Rightarrow> False)"
  by (simp add: eval_simps)

text \<open>
  C2 (amended). If the connection is inactive or \<open>n\<close> exceeds the ceiling,
  \<^verbatim>\<open>AttemptHashes(n)\<close> returns an error at once, whatever else happens: no frame of the
  loop exists, so no task is launched, and the engine, the session counters included,
  is unchanged. Otherwise, under every run after which the call returns, it returns no
  error, the number of tasks it launched is at most \<open>max 0 n\<close>, and \<^verbatim>\<open>Hashes\<close> is that
  number (as a \<^verbatim>\<open>uint64\<close>), hence at most \<open>max 0 n\<close>: at most \<open>n\<close> for \<open>n \<ge> 0\<close>, and 0
  for a negative \<open>n\<close>.
\<close>

theorem AttemptHashes_rejects_or_bounds:
  "(\<not> IsActive e \<or> n > GetMaxHashes e \<longrightarrow>
      (\<exists>err. AttemptHashes x evs el n e = Returns ((zero_result, Some err), e, None))) \<and>
   (IsActive e \<and> n \<le> GetMaxHashes e \<and>
    AttemptHashes x evs el n e = Returns ((r, err), e', fr) \<longrightarrow>
      (\<exists>c. fr = Some c \<and> err = None \<and> int (launched c) \<le> max 0 n \<and>
           Hashes r = of_nat (launched c) \<and> uint (Hashes r) \<le> max 0 n))"
proof (intro conjI impI)
  assume "\<not> IsActive e \<or> n > GetMaxHashes e"
  then show "\<exists>err. AttemptHashes x evs el n e = Returns ((zero_result, Some err), e, None)"
    by (auto simp: AttemptHashes_def AttemptHashes_begin_def)
next
  assume a: "IsActive e \<and> n \<le> GetMaxHashes e \<and>
    AttemptHashes x evs el n e = Returns ((r, err), e', fr)"
  then have b: "AttemptHashes_begin n e = Inr (setProcessing True e, new_call AttemptCall n [])"
    by (simp add: AttemptHashes_begin_def)
  with a obtain e1 c where
    run: "run_events x evs (setProcessing True e, new_call AttemptCall n []) = Returns (e1, c)"
    and fin: "AttemptHashes_end el (e1, c) = Returns ((r, err), e')" and fr: "fr = Some c"
    by (auto simp: AttemptHashes_def bind_run_Returns)
  from run_events_attempt_ok [OF run attempt_ok_new] have ok: "attempt_ok c" and h: "hashes c = n"
    by (simp_all add: new_call_def)
  from fin have r: "Hashes r = word_of_int (loop_i c)" and err: "err = None"
    by (auto simp: AttemptHashes_end_def Let_def split: if_splits)
  from ok h have i: "loop_i c = int (launched c)" and le: "int (launched c) \<le> max 0 n"
    by (auto simp: attempt_ok_def)
  have "uint (Hashes r) \<le> int (launched c)"
    unfolding r i by (rule uint_of_nat_le)
  with le r i err fr show "\<exists>c. fr = Some c \<and> err = None \<and> int (launched c) \<le> max 0 n \<and>
           Hashes r = of_nat (launched c) \<and> uint (Hashes r) \<le> max 0 n"
    by auto
qed

theorem AttemptHashes_rejects_or_bounds_witness:
  "IsActive sample_engine \<and> 2 \<le> GetMaxHashes sample_engine \<and>
   AttemptHashes sample_ext
     [Step LoopHead, Step Launch, Step (TaskStep 0 write_succeeds),
      Step (TaskStep 0 write_succeeds), Step LoopHead] 5 2 sample_engine
    = Returns ((\<lparr>Hashes = 1, Submitted = 0, Duration = 5, Error = Some (ErrDecode 0 None)\<rparr>, None),
        sample_engine\<lparr>session := \<lparr>sessionHashes = 1, sessionMinis = 0, sessionVersion = []\<rparr>\<rparr>,
        Some \<lparr>kind = AttemptCall, hashes = 2, rest = [], loop_i = 1,
          result = \<lparr>Hashes = 0, Submitted = 0, Duration = 0, Error = Some (ErrDecode 0 None)\<rparr>,
          running = [], pc = Waiting, launched = 1, failed = 1\<rparr>) \<and>
   uint (1 :: 64 word) \<le> max 0 2 \<and>
   (\<exists>err. AttemptHashes sample_ext [] 5 1001 sample_engine
            = Returns ((zero_result, Some err), sample_engine, None))"
proof -
  have a: "IsActive sample_engine" and b: "2 \<le> GetMaxHashes sample_engine"
    and c: "GetMaxHashes sample_engine < 1001"
    by (simp_all add: sample_engine_eq IsActive_def GetMaxHashes_def)
  have run: "AttemptHashes sample_ext
     [Step LoopHead, Step Launch, Step (TaskStep 0 write_succeeds),
      Step (TaskStep 0 write_succeeds), Step LoopHead] 5 2 sample_engine
    = Returns ((\<lparr>Hashes = 1, Submitted = 0, Duration = 5, Error = Some (ErrDecode 0 None)\<rparr>, None),
        sample_engine\<lparr>session := \<lparr>sessionHashes = 1, sessionMinis = 0, sessionVersion = []\<rparr>\<rparr>,
        Some \<lparr>kind = AttemptCall, hashes = 2, rest = [], loop_i = 1,
          result = \<lparr>Hashes = 0, Submitted = 0, Duration = 0, Error = Some (ErrDecode 0 None)\<rparr>,
          running = [], pc = Waiting, launched = 1, failed = 1\<rparr>)"
    by (simp add: eval_simps)
  from AttemptHashes_rejects_or_bounds [of sample_engine 2 sample_ext _ 5] a b run
  have "uint (1 :: 64 word) \<le> max 0 2" by fastforce
  moreover from AttemptHashes_rejects_or_bounds [of sample_engine 1001 sample_ext "[]" 5] c
  have "\<exists>err. AttemptHashes sample_ext [] 5 1001 sample_engine
            = Returns ((zero_result, Some err), sample_engine, None)" by blast
  ultimately show ?thesis using a b run by blast
qed

text \<open>
  C3 (as stated: the result's \<^verbatim>\<open>Hashes\<close> is the number of tasks that executed). It fails
  in two ways. When a task ends in an error: \<^verbatim>\<open>SubmitHashes\<close> of one entry whose write
  fails launches one goroutine, which runs \<^verbatim>\<open>submitBlock\<close> and returns before \<^verbatim>\<open>i++\<close>;
  the call returns with every goroutine finished and \<^verbatim>\<open>Hashes = 0\<close>. And when two
  goroutines increment \<^verbatim>\<open>i\<close> together: with two free slots, both goroutines of a batch
  of two read \<^verbatim>\<open>i = 0\<close> and both write 1; both have run \<^verbatim>\<open>submitBlock\<close> without error
  and \<^verbatim>\<open>Submitted\<close> is 2, yet \<^verbatim>\<open>Hashes = 1\<close>.
\<close>

theorem SubmitHashes_failed_task_not_counted:
  "IsActive sample_engine \<and> int (length [sample_params, sample_params]) \<le> GetMaxHashes sample_engine \<and>
   (case SubmitHashes sample_ext
           [Step LoopHead, Step Launch, Step (TaskStep 0 write_fails),
            Step (TaskStep 0 write_fails), Step (TaskStep 0 write_fails), Step LoopHead]
           5 [sample_params] sample_engine of
      Returns ((r, err), e', fr) \<Rightarrow>
        err = None \<and> Hashes r = 0 \<and> Error r = Some ErrWrite \<and>
        (case fr of
           Some c \<Rightarrow> launched c = 1 \<and> running c = [] \<and> Hashes r \<noteq> of_nat (launched c)
         | None \<Rightarrow> False)
    | _ \<Rightarrow> False) \<and>
   (case SubmitHashes sample_ext
           [Step LoopHead, Step Launch, Step LoopHead, Step Launch,
            Step (TaskStep 0 write_succeeds), Step (TaskStep 0 write_succeeds),
            Step (TaskStep 1 write_succeeds), Step (TaskStep 1 write_succeeds),
            Step (TaskStep 0 write_succeeds), Step (TaskStep 1 write_succeeds),
            Step (TaskStep 0 write_succeeds), Step (TaskStep 1 write_succeeds),
            Step (TaskStep 0 write_succeeds), Step (TaskStep 0 write_succeeds),
            Step (TaskStep 0 write_succeeds), Step (TaskStep 0 write_succeeds),
            Step (TaskStep 0 write_succeeds), Step (TaskStep 0 write_succeeds),
            Step LoopHead]
           5 [sample_params, sample_params] sample_engine of
      Returns ((r, err), e', fr) \<Rightarrow>
        err = None \<and> Hashes r = 1 \<and> Error r = None \<and> Submitted r = 2 \<and>
        (case fr of
           Some c \<Rightarrow> launched c = 2 \<and> failed c = 0 \<and> running c = [] \<and>
             Hashes r \<noteq> of_nat (launched c) \<and> Hashes r \<noteq> of_nat (launched c - failed c)
         | None \<Rightarrow> False)
    | _ \<Rightarrow> False)"
  by (simp add: eval_simps sample_params_def)

text \<open>
  C3 (amended). For a call of \<^verbatim>\<open>SubmitHashes(params)\<close> on an active connection that is not
  rejected, with its goroutines and the read loop interleaved in any way and no other
  call of the package between its entry and its return, under every run after which it
  returns: it returns no error, the session's \<^verbatim>\<open>MiniBlocks\<close> has grown by exactly the
  result's \<^verbatim>\<open>Submitted\<close>, the session's \<^verbatim>\<open>Hashes\<close> is unchanged, every launched
  goroutine has finished, and at most \<open>length params\<close> were launched. The result's
  \<^verbatim>\<open>Hashes\<close> is at most the number of launched goroutines whose \<^verbatim>\<open>submitBlock\<close>
  returned no error (those launched less those that failed): a goroutine that fails is
  never counted, and the unsynchronised \<^verbatim>\<open>i++\<close> can lose an increment. It is exactly
  that number when the channel has at most one free slot at entry (a worker limit of
  1, for one), since the goroutines then run one after the other.
\<close>

theorem SubmitHashes_counts:
  "IsActive e \<and> int (length ps) \<le> GetMaxHashes e \<and>
   SubmitHashes x evs el ps e = Returns ((r, err), e', fr) \<longrightarrow>
     (\<exists>c. fr = Some c \<and> err = None \<and>
        sessionMinis (session e') = sessionMinis (session e) + Submitted r \<and>
        sessionHashes (session e') = sessionHashes (session e) \<and>
        running c = [] \<and> launched c \<le> length ps \<and>
        uint (Hashes r) + int (failed c) \<le> int (launched c) \<and>
        ((\<exists>ch. semaphore e = Some ch \<and> cap ch \<le> len ch + 1) \<longrightarrow>
           failed c \<le> launched c \<and> Hashes r = of_nat (launched c - failed c)))"
proof
  assume a: "IsActive e \<and> int (length ps) \<le> GetMaxHashes e \<and>
   SubmitHashes x evs el ps e = Returns ((r, err), e', fr)"
  then obtain e1 c where
    run: "run_events x evs (setProcessing True e, new_call SubmitCall 0 ps) = Returns (e1, c)"
    and fin: "SubmitHashes_end el (e1, c) = Returns ((r, err), e')" and fr: "fr = Some c"
    by (blast elim: SubmitHashes_run)
  from run_events_submit_ok [OF run submit_ok_new] have ok: "submit_ok (length ps) c" .
  from run_events_session [OF run] have s1: "session e1 = session e"
    by (simp add: setProcessing_def)
  from fin have w: "pc c = Waiting" "running c = []" and err: "err = None"
    and r: "Hashes r = word_of_int (loop_i c)"
    and m: "sessionMinis (session e') = sessionMinis (session e1) + Submitted r"
    and h: "sessionHashes (session e') = sessionHashes (session e1)"
    by (auto simp: SubmitHashes_end_def Let_def setProcessing_def split: if_splits)
  from ok w have i: "loop_i c + int (failed c) \<le> int (launched c)" and l: "launched c \<le> length ps"
    and nn: "0 \<le> loop_i c"
    by (auto simp: submit_ok_def pending_def)
  from uint_word_of_int_le [OF nn] r have "uint (Hashes r) \<le> loop_i c" by simp
  with i have b: "uint (Hashes r) + int (failed c) \<le> int (launched c)" by simp
  have ex: "failed c \<le> launched c \<and> Hashes r = of_nat (launched c - failed c)"
    if "\<exists>ch. semaphore e = Some ch \<and> cap ch \<le> len ch + 1"
  proof -
    from that obtain ch where "semaphore e = Some ch" "cap ch \<le> len ch + 1" by blast
    then have "serial_ok (setProcessing True e, new_call SubmitCall 0 ps)"
      by (rule serial_ok_new)
    from run_events_serial_ok [OF run this] w
    have "loop_i c + int (failed c) = int (launched c)"
      by (simp add: serial_ok_def pending_def)
    with nn have "failed c \<le> launched c" "loop_i c = int (launched c - failed c)" by auto
    with r show ?thesis by simp
  qed
  with fr err m h s1 w l b show "\<exists>c. fr = Some c \<and> err = None \<and>
        sessionMinis (session e') = sessionMinis (session e) + Submitted r \<and>
        sessionHashes (session e') = sessionHashes (session e) \<and>
        running c = [] \<and> launched c \<le> length ps \<and>
        uint (Hashes r) + int (failed c) \<le> int (launched c) \<and>
        ((\<exists>ch. semaphore e = Some ch \<and> cap ch \<le> len ch + 1) \<longrightarrow>
           failed c \<le> launched c \<and> Hashes r = of_nat (launched c - failed c))"
    by simp
qed

theorem SubmitHashes_counts_witness:
  "IsActive single_worker_engine \<and>
   int (length [sample_params, sample_params]) \<le> GetMaxHashes single_worker_engine \<and>
   (\<exists>ch. semaphore single_worker_engine = Some ch \<and> cap ch \<le> len ch + 1) \<and>
   (\<exists>r e' c. SubmitHashes sample_ext
     [Step LoopHead, Step Launch,
      Step (TaskStep 0 write_succeeds), Step (TaskStep 0 write_succeeds),
      Step (TaskStep 0 write_succeeds), Step (TaskStep 0 write_succeeds),
      Step (TaskStep 0 write_succeeds), Step (TaskStep 0 write_succeeds),
      Step (TaskStep 0 write_succeeds),
      Step LoopHead, Step Launch,
      Step (TaskStep 0 write_fails), Step (TaskStep 0 write_fails), Step (TaskStep 0 write_fails),
      Step LoopHead] 5 [sample_params, sample_params] single_worker_engine
       = Returns ((r, None), e', Some c) \<and>
     Hashes r = 1 \<and> Submitted r = 1 \<and> Error r = Some ErrWrite \<and>
     launched c = 2 \<and> failed c = 1 \<and> sessionMinis (session e') = 1 \<and>
     uint (Hashes r) + int (failed c) \<le> int (launched c) \<and>
     Hashes r = of_nat (launched c - failed c))"
proof -
  let ?evs = "[Step LoopHead, Step Launch,
      Step (TaskStep 0 write_succeeds), Step (TaskStep 0 write_succeeds),
      Step (TaskStep 0 write_succeeds), Step (TaskStep 0 write_succeeds),
      Step (TaskStep 0 write_succeeds), Step (TaskStep 0 write_succeeds),
      Step (TaskStep 0 write_succeeds),
      Step LoopHead, Step Launch,
      Step (TaskStep 0 write_fails), Step (TaskStep 0 write_fails), Step (TaskStep 0 write_fails),
      Step LoopHead]"
  let ?r = "\<lparr>Hashes = 1, Submitted = 1, Duration = 5, Error = Some ErrWrite\<rparr>"
  let ?e = "single_worker_engine\<lparr>conn_ws := Some \<lparr>written =
              [\<lparr>sb_JobID = JobID sample_job,
                MiniBlockhashing_blob = hex_encode (replicate 48 0)\<rparr>], writeErr = True\<rparr>,
            session := \<lparr>sessionHashes = 0, sessionMinis = 1, sessionVersion = []\<rparr>\<rparr>"
  let ?c = "\<lparr>kind = SubmitCall, hashes = 0, rest = [], loop_i = 1,
          result = \<lparr>Hashes = 0, Submitted = 1, Duration = 0, Error = Some ErrWrite\<rparr>,
          running = [], pc = Waiting, launched = 2, failed = 1\<rparr>"
  have a: "IsActive single_worker_engine"
    and b: "int (length [sample_params, sample_params]) \<le> GetMaxHashes single_worker_engine"
    and s: "\<exists>ch. semaphore single_worker_engine = Some ch \<and> cap ch \<le> len ch + 1"
    by (simp_all add: single_worker_engine_eq IsActive_def GetMaxHashes_def)
  have run: "SubmitHashes sample_ext ?evs 5 [sample_params, sample_params] single_worker_engine
       = Returns ((?r, None), ?e, Some ?c)"
    by (simp add: eval_simps single_worker_engine_eq sample_params_def)
  from SubmitHashes_counts [of single_worker_engine "[sample_params, sample_params]"
      sample_ext ?evs 5 ?r None ?e "Some ?c"] a b s run
  have "uint (Hashes ?r) + int (failed ?c) \<le> int (launched ?c) \<and>
        Hashes ?r = of_nat (launched ?c - failed ?c)"
    by blast
  with a b s run show ?thesis
    by (intro conjI exI [of _ ?r] exI [of _ ?e] exI [of _ ?c]) simp_all
qed

text \<open>
  C6 (as stated: on every engine with an active connection \<^verbatim>\<open>SubmitHashes\<close> of the
  empty list succeeds). It fails when the ceiling is negative, which \<^verbatim>\<open>SetMaxHashes\<close>
  accepts: after \<^verbatim>\<open>SetMaxHashes(-1)\<close> the test \<^verbatim>\<open>l > GetMaxHashes()\<close> holds for
  \<^verbatim>\<open>l = 0\<close>, and the call returns the error of an exceeded ceiling.
\<close>

theorem SubmitHashes_empty_rejected:
  "fst (SetMaxHashes (- 1) sample_engine) = None \<and>
   IsActive (snd (SetMaxHashes (- 1) sample_engine)) \<and>
   SubmitHashes sample_ext [Step LoopHead] 5 [] (snd (SetMaxHashes (- 1) sample_engine))
     = Returns ((zero_result, Some (ErrSubmissionExceeds (- 1) 0)),
         snd (SetMaxHashes (- 1) sample_engine), None)"
  by (simp add: eval_simps SetMaxHashes_def LIMIT_MAX_HASHES_def)

text \<open>
  C6 (amended). On an active connection whose ceiling is not negative,
  \<^verbatim>\<open>SubmitHashes\<close> of the empty list returns (its loop ends at the first test), with no
  error, \<^verbatim>\<open>Hashes = 0\<close>, \<^verbatim>\<open>Submitted = 0\<close> and no \<^verbatim>\<open>Error\<close> in the result, and the session
  is unchanged; and so under every run after which it returns.
\<close>

theorem SubmitHashes_empty:
  "IsActive e \<and> 0 \<le> GetMaxHashes e \<longrightarrow>
     (\<exists>e' fr. SubmitHashes x [Step LoopHead] el [] e =
          Returns ((\<lparr>Hashes = 0, Submitted = 0, Duration = el, Error = None\<rparr>, None), e', fr) \<and>
        session e' = session e) \<and>
     (\<forall>evs r err e' fr. SubmitHashes x evs el [] e = Returns ((r, err), e', fr) \<longrightarrow>
        err = None \<and> Error r = None \<and> Hashes r = 0 \<and> Submitted r = 0 \<and> session e' = session e)"
proof (intro impI conjI allI)
  assume a: "IsActive e \<and> 0 \<le> GetMaxHashes e"
  then show "\<exists>e' fr. SubmitHashes x [Step LoopHead] el [] e =
          Returns ((\<lparr>Hashes = 0, Submitted = 0, Duration = el, Error = None\<rparr>, None), e', fr) \<and>
        session e' = session e"
    by (simp add: SubmitHashes_def SubmitHashes_begin_def SubmitHashes_end_def new_call_def
        call_step.simps zero_result_def setProcessing_def Let_def)
next
  fix evs r err e' fr
  assume a: "IsActive e \<and> 0 \<le> GetMaxHashes e"
    and b: "SubmitHashes x evs el [] e = Returns ((r, err), e', fr)"
  from a b obtain e1 c where
    run: "run_events x evs (setProcessing True e, new_call SubmitCall 0 []) = Returns (e1, c)"
    and fin: "SubmitHashes_end el (e1, c) = Returns ((r, err), e')"
    by (auto elim: SubmitHashes_run [where ps = "[]"])
  have "idle (new_call SubmitCall 0 [])" by (simp add: idle_def new_call_def)
  from run_events_idle [OF run this] have c: "loop_i c = 0" "result c = zero_result"
    by (simp_all add: idle_def)
  from run_events_session [OF run] have s1: "session e1 = session e"
    by (simp add: setProcessing_def)
  from fin c s1 show "err = None" "Error r = None" "Hashes r = 0" "Submitted r = 0" "session e' = session e"
    by (auto simp: SubmitHashes_end_def Let_def setProcessing_def zero_result_def split: if_splits)
qed

theorem SubmitHashes_empty_witness:
  "IsActive sample_engine \<and> 0 \<le> GetMaxHashes sample_engine \<and>
   (\<exists>e' fr. SubmitHashes sample_ext [Step LoopHead] 5 [] sample_engine =
        Returns ((\<lparr>Hashes = 0, Submitted = 0, Duration = 5, Error = None\<rparr>, None), e', fr) \<and>
      session e' = session sample_engine)"
proof -
  have a: "IsActive sample_engine \<and> 0 \<le> GetMaxHashes sample_engine"
    by (simp add: sample_engine_eq IsActive_def GetMaxHashes_def)
  with SubmitHashes_empty [of sample_engine sample_ext 5] show ?thesis by blast
qed

text \<open>
  C9. \<^verbatim>\<open>SetMaxHashes\<close> has no lower bound: every \<open>i \<le> LIMIT_MAX_HASHES\<close>, zero and the
  negative numbers included, is accepted without error and becomes the ceiling. After
  \<^verbatim>\<open>SetMaxHashes(i)\<close> with \<open>i < 0\<close> on an active connection, every
  \<^verbatim>\<open>AttemptHashes(n)\<close> with \<open>n \<ge> 0\<close> and every \<^verbatim>\<open>SubmitHashes(params)\<close>, the empty list
  included, returns the error of an exceeded ceiling before its loop: no task is
  launched and the engine is unchanged.
\<close>

theorem SetMaxHashes_no_lower_bound:
  "(i \<le> LIMIT_MAX_HASHES \<longrightarrow>
      fst (SetMaxHashes i e) = None \<and> GetMaxHashes (snd (SetMaxHashes i e)) = i) \<and>
   (i < 0 \<and> IsActive e \<longrightarrow>
      IsActive (snd (SetMaxHashes i e)) \<and>
      (\<forall>n\<ge>0. AttemptHashes x evs el n (snd (SetMaxHashes i e)) =
         Returns ((zero_result, Some (ErrHashesExceed n i)), snd (SetMaxHashes i e), None)) \<and>
      SubmitHashes x evs el ps (snd (SetMaxHashes i e)) =
         Returns ((zero_result, Some (ErrSubmissionExceeds i (int (length ps)))),
           snd (SetMaxHashes i e), None))"
  by (simp add: SetMaxHashes_def GetMaxHashes_def LIMIT_MAX_HASHES_def IsActive_def
      AttemptHashes_def AttemptHashes_begin_def SubmitHashes_def SubmitHashes_begin_def Let_def)

theorem SetMaxHashes_no_lower_bound_witness:
  "- 5 \<le> LIMIT_MAX_HASHES \<and> IsActive sample_engine \<and>
   fst (SetMaxHashes (- 5) sample_engine) = None \<and>
   GetMaxHashes (snd (SetMaxHashes (- 5) sample_engine)) = - 5 \<and>
   AttemptHashes sample_ext [] 5 0 (snd (SetMaxHashes (- 5) sample_engine)) =
     Returns ((zero_result, Some (ErrHashesExceed 0 (- 5))), snd (SetMaxHashes (- 5) sample_engine), None) \<and>
   SubmitHashes sample_ext [] 5 [] (snd (SetMaxHashes (- 5) sample_engine)) =
     Returns ((zero_result, Some (ErrSubmissionExceeds (- 5) (int (length ([] :: Submit_Params list))))),
       snd (SetMaxHashes (- 5) sample_engine), None)"
proof -
  have a: "- 5 \<le> LIMIT_MAX_HASHES" by (simp add: LIMIT_MAX_HASHES_def)
  have b: "IsActive sample_engine" by (simp add: sample_engine_eq IsActive_def)
  have c: "(- 5 :: int) < 0" and d: "(0 :: int) \<ge> 0" by simp_all
  from SetMaxHashes_no_lower_bound [of "- 5" sample_engine sample_ext "[]" 5 "[]"] a b c d
  show ?thesis by blast
qed

section \<open>\<^verbatim>\<open>powHash\<close>: theorems\<close>

lemma hex_Decode_from_overflow:
  "\<forall>ch \<in> set src. fromHexChar ch \<noteq> None \<Longrightarrow> i \<le> length dst \<Longrightarrow>
   2 * (length dst - i) + 2 \<le> length src \<Longrightarrow> hex_Decode_from i dst src = Panics"
proof (induction i dst src rule: hex_Decode_from.induct)
  case (1 i dst p q src)
  from "1.prems"(1) obtain a b where a: "fromHexChar p = Some a" and b: "fromHexChar q = Some b"
    by auto
  show ?case
  proof (cases "i < length dst")
    case True
    with "1.prems" have "hex_Decode_from (Suc i) (dst[i := push_bit 4 a OR b]) src = Panics"
      by (intro "1.IH" [OF a b]) auto
    with a b True show ?thesis by simp
  next
    case False
    with a b show ?thesis by simp
  qed
next
  case (2 i dst p)
  then show ?case by simp
next
  case (3 i dst)
  then show ?case by simp
qed

lemma powHash_long_blob:
  assumes "\<forall>ch \<in> set (Blockhashing_blob (jobs_job e)). fromHexChar ch \<noteq> None"
    and "2 * MINIBLOCK_SIZE + 2 \<le> length (Blockhashing_blob (jobs_job e))"
  shows "powHash x rnd e = Panics"
proof -
  have "hex_Decode (replicate MINIBLOCK_SIZE 0) (Blockhashing_blob (jobs_job e)) = Panics"
    unfolding hex_Decode_def using assms by (intro hex_Decode_from_overflow) auto
  then show ?thesis by (simp add: powHash_def getJob_def)
qed

text \<open>
  The error paths of \<^verbatim>\<open>powHash\<close>: a blob that decodes with an error or to a count other
  than 48 gives the decode error, an error leaves \<^verbatim>\<open>powhash\<close> at its zero value, and
  the goroutine then records the error and leaves the engine, the connection included,
  as it is.
\<close>

lemma powHash_error_no_hash:
  "powHash x rnd e = Returns (job, powhash, work, diff, Some er) \<Longrightarrow> powhash = replicate 32 0"
  by (auto simp: powHash_def bind_run_Returns Let_def split: if_splits)

lemma powHash_decode_error:
  assumes "hex_Decode (replicate MINIBLOCK_SIZE 0) (Blockhashing_blob (getJob e)) = Returns (work, n, herr)"
    and "herr \<noteq> None \<or> n \<noteq> MINIBLOCK_SIZE"
  shows "powHash x rnd e = Returns (getJob e, replicate 32 0, work, 0, Some (ErrDecode n herr))"
  using assms by (auto simp: powHash_def)

lemma task_step_powHash_error:
  assumes "powHash x (random t) e = Returns (job, powhash, work, diff, Some er)"
  shows "task_step x t Start (e, c) = Returns (e, set_Error er c, Some Release)"
  using assms by (simp add: task_step.simps)

text \<open>
  C5. \<^verbatim>\<open>powHash\<close> is to return an error, failing its task only, whenever the hashing
  blob does not decode to exactly \<^verbatim>\<open>MINIBLOCK_SIZE\<close> bytes. For a blob of 49 bytes (98
  hexadecimal digits) it does not return: \<^verbatim>\<open>hex.Decode\<close> stores the 49th byte into the
  48-byte array \<^verbatim>\<open>work\<close>, which panics, and so does the call of \<^verbatim>\<open>AttemptHashes\<close> whose
  goroutine runs it.
\<close>

theorem powHash_panics_on_long_blob:
  "powHash sample_ext [] (snd (newJob long_blob_job sample_engine)) = Panics \<and>
   AttemptHashes sample_ext [Step LoopHead, Step Launch, Step (TaskStep 0 write_succeeds)] 5 1
     (snd (newJob long_blob_job sample_engine)) = Panics"
proof -
  have hexd: "\<forall>ch \<in> set (Blockhashing_blob long_blob_job). fromHexChar ch \<noteq> None"
    by (simp add: long_blob_job_def sample_job_def fromHexChar_def)
  have len: "2 * MINIBLOCK_SIZE + 2 \<le> length (Blockhashing_blob long_blob_job)"
    by (simp add: long_blob_job_def sample_job_def MINIBLOCK_SIZE_def)
  have p: "powHash sample_ext rnd e = Panics" if "jobs_job e = long_blob_job" for rnd e
    using that hexd len by (intro powHash_long_blob) simp_all
  have "powHash sample_ext [] (snd (newJob long_blob_job sample_engine)) = Panics"
    by (rule p) (simp add: newJob_def)
  moreover have "AttemptHashes sample_ext [Step LoopHead, Step Launch, Step (TaskStep 0 write_succeeds)] 5 1
     (snd (newJob long_blob_job sample_engine)) = Panics"
    by (simp add: AttemptHashes_def AttemptHashes_begin_def call_step.simps task_step.simps
        sem_send_def new_call_def zero_result_def setProcessing_def IsActive_def GetMaxHashes_def
        sample_engine_eq newJob_def p)
  ultimately show ?thesis by simp
qed

theorem powHash_panics_on_long_blob_witness:
  "powHash sample_ext [] (snd (newJob long_blob_job sample_engine)) \<noteq>
     Returns (long_blob_job, replicate 32 0, replicate 48 0, 0, Some (ErrDecode 48 None)) \<and>
   AttemptHashes sample_ext [Step LoopHead, Step Launch, Step (TaskStep 0 write_succeeds)] 5 1
     (snd (newJob long_blob_job sample_engine)) \<noteq> Blocked"
  using powHash_panics_on_long_blob by simp

section \<open>Overlapping calls: the semaphore\<close>






lemma call_end_Returns:
  assumes "call_end el (e, c) = Returns (r, e')"
  shows "running c = [] \<and> semaphore e' = semaphore e \<and>
         sessionVersion (session e') = sessionVersion (session e)"
  using assms
  by (cases "kind c")
     (auto simp: call_end_def AttemptHashes_end_def SubmitHashes_end_def Let_def setProcessing_def
       split: if_splits)

lemma begin_Returns:
  "AttemptHashes_begin n e = Inr (e', c) \<Longrightarrow>
     semaphore e' = semaphore e \<and> session e' = session e \<and> running c = []"
  "SubmitHashes_begin ps e = Inr (e', c) \<Longrightarrow>
     semaphore e' = semaphore e \<and> session e' = session e \<and> running c = []"
  by (auto simp: AttemptHashes_begin_def SubmitHashes_begin_def Let_def setProcessing_def
      new_call_def split: if_splits)

lemma config_ops_keep:
  "semaphore (snd (SetAddress x a e)) = semaphore e \<and> session (snd (SetAddress x a e)) = session e"
  "semaphore (snd (SetPort p e)) = semaphore e \<and> session (snd (SetPort p e)) = session e"
  "semaphore (snd (SetMaxHashes n e)) = semaphore e \<and> session (snd (SetMaxHashes n e)) = session e"
  "semaphore (SetMaxThreads x n e) = semaphore e \<and> session (SetMaxThreads x n e) = session e"
  "semaphore (StopGetWork e) = semaphore e \<and> session (StopGetWork e) = session e"
  by (simp_all add: SetAddress_def SetPort_def SetMaxHashes_def SetMaxThreads_def StopGetWork_def Let_def)




lemma StartGetWork_sample:
  "StartGetWork sample_ext True ''deto1qy'' ''127.0.0.1:20000'' (init sample_ext) = Returns (None, sample_engine)"
  by (simp add: sample_engine_eq StartGetWork_def init_def sample_ext_def IsActive_def
      zero_EPOCH_def SetMaxThreads_def SetAddress_def zero_session_def
      DEFAULT_MAX_THREADS_def DEFAULT_WORK_PORT_def Let_def decimal_10100)




section \<open>The session\<close>

lemma StartGetWork_version:
  "StartGetWork x d a ep e = Returns (err, e') \<Longrightarrow>
     sessionVersion (session e') = sessionVersion (session e)"
  by (auto simp: StartGetWork_def SetAddress_def Let_def
      split: if_splits option.splits prod.splits)

lemma gstep_version:
  assumes "gstep x ev (e, cs) = Returns (e', cs')"
  shows "sessionVersion (session e') = sessionVersion (session e)"
proof (cases ev)
  case (GSetAddress a)
  with assms show ?thesis by (auto simp: config_ops_keep)
next
  case (GSetPort p)
  with assms show ?thesis by (auto simp: config_ops_keep)
next
  case (GSetMaxHashes n)
  with assms show ?thesis by (auto simp: config_ops_keep)
next
  case (GSetMaxThreads n)
  with assms show ?thesis by (auto simp: config_ops_keep)
next
  case (GStartGetWork d a ep)
  with assms show ?thesis by (auto simp: bind_run_Returns dest: StartGetWork_version)
next
  case GStopGetWork
  with assms show ?thesis by (auto simp: config_ops_keep)
next
  case (GRead msg)
  with assms show ?thesis by (auto simp: bind_run_Returns dest: read_loop_Returns)
next
  case (GAttemptHashes n)
  with assms show ?thesis by (auto split: sum.splits dest: begin_Returns(1))
next
  case (GSubmitHashes ps)
  with assms show ?thesis by (auto split: sum.splits dest: begin_Returns(2))
next
  case (GStep k st)
  with assms show ?thesis
    by (auto simp: bind_run_Returns split: if_splits dest: call_step_session)
next
  case (GReturn k el)
  with assms show ?thesis
    by (auto simp: bind_run_Returns split: if_splits dest: call_end_Returns)
qed

lemma grun_version:
  "grun x evs (e, cs) = Returns (e', cs') \<Longrightarrow>
     sessionVersion (session e') = sessionVersion (session e)"
proof (induction evs arbitrary: e cs)
  case Nil
  then show ?case by simp
next
  case (Cons ev evs)
  then obtain e1 cs1 where st: "gstep x ev (e, cs) = Returns (e1, cs1)"
    and rest: "grun x evs (e1, cs1) = Returns (e', cs')"
    by (auto simp: bind_run_Returns)
  from Cons.IH [OF rest] gstep_version [OF st] show ?case by simp
qed

lemma init_version: "sessionVersion (session (init x)) = []"
  by (simp add: init_def SetMaxThreads_def zero_EPOCH_def zero_session_def Let_def)

lemma GetSession_version:
  "\<forall>p \<in> set polls. sessionVersion (session p) = [] \<Longrightarrow>
     sessionVersion (fst (GetSession polls)) = []"
  by (induction polls) (simp_all add: zero_session_def)

lemma grun_sample:
  "grun sample_ext
     [GStartGetWork True ''deto1qy'' ''127.0.0.1:20000'', GAttemptHashes 2, GStep 0 LoopHead,
      GStep 0 Launch, GStep 0 (TaskStep 0 write_succeeds),
      GStep 0 (TaskStep 0 write_succeeds), GStep 0 LoopHead, GReturn 0 5]
     (init sample_ext, []) = Returns (after_batch, [])"
proof -
  have "gstep sample_ext (GStartGetWork True ''deto1qy'' ''127.0.0.1:20000'') (init sample_ext, [])
          = Returns (sample_engine, [])"
    by (simp add: StartGetWork_sample)
  moreover have "grun sample_ext [GAttemptHashes 2, GStep 0 LoopHead,
      GStep 0 Launch, GStep 0 (TaskStep 0 write_succeeds),
      GStep 0 (TaskStep 0 write_succeeds), GStep 0 LoopHead, GReturn 0 5]
     (sample_engine, []) = Returns (after_batch, [])"
    by (simp add: eval_simps call_end_def after_batch_def)
  ultimately show ?thesis by simp
qed

text \<open>
  C10. No operation assigns the \<^verbatim>\<open>Version\<close> of the session: in every engine state
  reached from the initial one by calls of the exported functions (\<^verbatim>\<open>StartGetWork\<close>,
  which resets the two counters, included), steps and returns of \<^verbatim>\<open>AttemptHashes\<close> and
  \<^verbatim>\<open>SubmitHashes\<close>, and iterations of the read loop, it is the empty string; and so it
  is in what \<^verbatim>\<open>GetSession\<close> and \<^verbatim>\<open>GetSessionEPOCH\<close> return, whether they return the
  session of a state they poll or the zero value with an error.
\<close>

theorem Version_never_assigned:
  "(grun x evs (init x, []) = Returns (e, cs) \<longrightarrow> sessionVersion (session e) = []) \<and>
   ((\<forall>p \<in> set polls. \<exists>evs' cs'. grun x evs' (init x, []) = Returns (p, cs')) \<longrightarrow>
      sessionVersion (fst (GetSession polls)) = [] \<and>
      sessionVersion (fst (GetSessionEPOCH e0 polls)) = [])"
proof (intro conjI impI)
  assume "grun x evs (init x, []) = Returns (e, cs)"
  from grun_version [OF this] show "sessionVersion (session e) = []"
    by (simp add: init_version)
next
  assume a: "\<forall>p \<in> set polls. \<exists>evs' cs'. grun x evs' (init x, []) = Returns (p, cs')"
  have "\<forall>p \<in> set polls. sessionVersion (session p) = []"
  proof
    fix p assume "p \<in> set polls"
    with a obtain evs' cs' where "grun x evs' (init x, []) = Returns (p, cs')" by blast
    from grun_version [OF this] show "sessionVersion (session p) = []"
      by (simp add: init_version)
  qed
  then have g: "sessionVersion (fst (GetSession polls)) = []" by (rule GetSession_version)
  then show "sessionVersion (fst (GetSession polls)) = []" .
  from g show "sessionVersion (fst (GetSessionEPOCH e0 polls)) = []"
    by (simp add: GetSessionEPOCH_def zero_session_def)
qed

theorem Version_never_assigned_witness:
  "grun sample_ext
     [GStartGetWork True ''deto1qy'' ''127.0.0.1:20000'', GAttemptHashes 2, GStep 0 LoopHead,
      GStep 0 Launch, GStep 0 (TaskStep 0 write_succeeds),
      GStep 0 (TaskStep 0 write_succeeds), GStep 0 LoopHead, GReturn 0 5]
     (init sample_ext, []) = Returns (after_batch, []) \<and>
   sessionHashes (session after_batch) = 1 \<and>
   sessionVersion (session after_batch) = [] \<and>
   sessionVersion (fst (GetSession [after_batch])) = [] \<and>
   sessionVersion (fst (GetSessionEPOCH after_batch [after_batch])) = []"
proof -
  have r: "\<forall>p \<in> set [after_batch]. \<exists>evs' cs'. grun sample_ext evs' (init sample_ext, []) = Returns (p, cs')"
  proof
    fix p assume "p \<in> set [after_batch]"
    then have "p = after_batch" by simp
    with grun_sample show "\<exists>evs' cs'. grun sample_ext evs' (init sample_ext, []) = Returns (p, cs')"
      by blast
  qed
  have h: "sessionHashes (session after_batch) = 1" by (simp add: after_batch_def)
  from Version_never_assigned [of sample_ext _ after_batch "[]" "[after_batch]" after_batch]
    grun_sample r h
  show ?thesis by blast
qed

end
